theory Spec2Isabelle
  imports Main
begin

section \<open>Common conventions\<close>

text \<open>
  The two modules embedded here are the round reconstruction (\<^verbatim>\<open>getRoundInfo\<close> with
  \<^verbatim>\<open>getRoundNumber\<close> and \<^verbatim>\<open>getApprovedFunding\<close>) and the recipient registry
  reconciliation (\<^verbatim>\<open>getProjects\<close>, \<^verbatim>\<open>getProject\<close> with \<^verbatim>\<open>getTcrColumns\<close>,
  \<^verbatim>\<open>decodeTcrItemData\<close>, \<^verbatim>\<open>decodeRecipientAdded\<close>).

  Both modules only read: contract getters and historical event scans. A call is modelled
  against one fixed ledger height, so every getter is a field of a record and every event
  scan is a list in emission order. A transport failure of a read is not modelled; the
  exceptions of the code itself are values of the type \<open>error\<close>:
  \<^item> \<open>RoundDoesNotExist\<close> is \<^verbatim>\<open>throw new Error('round does not exist')\<close>;
  \<^item> \<open>NumericFault\<close> is the fault of \<^verbatim>\<open>BigNumber.toNumber()\<close> on a value beyond
    \<open>2^53 - 1\<close>, and the fault of \<^verbatim>\<open>FixedNumber.fromValue\<close>;
  \<^item> \<open>AssertionError\<close> is a failed \<^verbatim>\<open>assert\<close> in the constructor of \<^verbatim>\<open>PubKey\<close>;
  \<^item> \<open>TypeError\<close> is reading \<^verbatim>\<open>.args\<close> of \<^verbatim>\<open>undefined\<close>;
  \<^item> \<open>FetchError\<close> and \<open>DecodeError\<close> are available to the two external collaborators
    (document fetch, metadata decoder), which are parameters of the model.

  Quantities read from contracts are unsigned (\<^verbatim>\<open>uint256\<close>), hence \<open>nat\<close>, and
  \<^verbatim>\<open>BigNumber\<close> arithmetic on them is exact. Block numbers are \<open>nat\<close>. Addresses, item
  ids and byte payloads are the strings the ledger client hands out.
\<close>

datatype error =
  RoundDoesNotExist | NumericFault | AssertionError | TypeError | FetchError | DecodeError

type_synonym address = string

type_synonym BigNumber = nat

definition MAX_SAFE_INTEGER :: nat where
  "MAX_SAFE_INTEGER = 9007199254740991"

definition toNumber :: "BigNumber \<Rightarrow> error + nat" where
  "toNumber b = (if b \<le> MAX_SAFE_INTEGER then Inr b else Inl NumericFault)"

text \<open>
  \<^verbatim>\<open>String.prototype.toLowerCase\<close> on the ASCII range, which is where addresses live:
  each of the letters \<open>A\<close> to \<open>Z\<close> becomes its small letter, every other character
  stays.
\<close>

definition lowerChar :: "char \<Rightarrow> char" where
  "lowerChar c =
     (case map_of (zip ''ABCDEFGHIJKLMNOPQRSTUVWXYZ'' ''abcdefghijklmnopqrstuvwxyz'') c of
        None \<Rightarrow> c
      | Some l \<Rightarrow> l)"

definition toLowerCase :: "string \<Rightarrow> string" where
  "toLowerCase s = map lowerChar s"

text \<open>
  \<^verbatim>\<open>Array.prototype.findIndex\<close>: the index of the first element satisfying the
  predicate, \<open>None\<close> for the result \<^verbatim>\<open>-1\<close>.
\<close>

fun findIndex :: "('a \<Rightarrow> bool) \<Rightarrow> 'a list \<Rightarrow> nat option" where
  "findIndex P [] = None"
| "findIndex P (x # xs) =
     (if P x then Some 0
      else (case findIndex P xs of None \<Rightarrow> None | Some i \<Rightarrow> Some (Suc i)))"

section \<open>Round reconstruction\<close>

datatype RoundStatus = Contributing | Reallocating | Tallying | Finalized | Cancelled

text \<open>
  A \<^verbatim>\<open>DateTime\<close> is an instant in milliseconds since the epoch, or invalid.
  \<^verbatim>\<open>DateTime.fromSeconds\<close> scales by 1000; beyond the largest date, 8.64e15
  milliseconds, the result is an invalid \<^verbatim>\<open>DateTime\<close>. The comparison \<^verbatim>\<open><\<close> of two
  \<^verbatim>\<open>DateTime\<close> values compares their \<^verbatim>\<open>valueOf()\<close>, which is \<^verbatim>\<open>NaN\<close> for an
  invalid one, so every comparison with an invalid \<^verbatim>\<open>DateTime\<close> is false.
\<close>

datatype DateTime = Instant int | InvalidDateTime

definition MAX_DATE :: int where
  "MAX_DATE = 8640000000000000"

definition fromSeconds :: "nat \<Rightarrow> DateTime" where
  "fromSeconds s =
     (if int s * 1000 \<le> MAX_DATE then Instant (int s * 1000) else InvalidDateTime)"

fun before :: "DateTime \<Rightarrow> DateTime \<Rightarrow> bool" where
  "before (Instant a) (Instant b) = (a < b)"
| "before (Instant a) InvalidDateTime = False"
| "before InvalidDateTime b = False"

text \<open>
  The constructor of \<^verbatim>\<open>PubKey\<close> asserts that both coordinates are below the order
  of the scalar field of the proof system.
\<close>

definition SNARK_FIELD_SIZE :: nat where
  "SNARK_FIELD_SIZE =
     21888242871839275222246405745257275088548364400416034343698204186575808495617"

definition newPubKey :: "nat \<times> nat \<Rightarrow> error + nat \<times> nat" where
  "newPubKey rawPubKey =
     (if fst rawPubKey < SNARK_FIELD_SIZE \<and> snd rawPubKey < SNARK_FIELD_SIZE
      then Inr rawPubKey else Inl AssertionError)"

datatype FixedNumber = FixedNumber BigNumber nat

record RoundInfo =
  fundingRoundAddress :: address
  roundNumber :: nat
  userRegistryAddress :: address
  maciAddress :: address
  recipientTreeDepth :: nat
  startBlock :: nat
  endBlock :: nat
  coordinatorPubKey :: "nat \<times> nat"
  nativeTokenAddress :: address
  nativeTokenSymbol :: string
  nativeTokenDecimals :: nat
  voiceCreditFactor :: BigNumber
  status :: RoundStatus
  signUpDeadline :: DateTime
  votingDeadline :: DateTime
  totalFunds :: FixedNumber
  matchingPool :: FixedNumber
  contributions :: FixedNumber
  contributors :: nat

text \<open>The getters of the three contracts the round reconstruction reads.\<close>

record FundingRoundContract =
  fr_maci :: address
  fr_nativeToken :: address
  fr_userRegistry :: address
  fr_startBlock :: BigNumber
  fr_voiceCreditFactor :: BigNumber
  fr_isFinalized :: bool
  fr_isCancelled :: bool
  fr_totalSpent :: BigNumber
  fr_matchingPoolSize :: BigNumber

record MaciContract =
  maci_voteOptionTreeDepth :: nat
  maci_signUpTimestamp :: BigNumber
  maci_signUpDurationSeconds :: BigNumber
  maci_votingDurationSeconds :: BigNumber
  maci_coordinatorPubKey :: "nat \<times> nat"

record ERC20Contract =
  erc20_symbol :: string
  erc20_decimals :: nat
  erc20_balanceOf :: "address \<Rightarrow> BigNumber"
  erc20_allowance :: "address \<Rightarrow> address \<Rightarrow> BigNumber"

text \<open>
  The ledger as the round module sees it. \<open>factoryAddress\<close>, \<open>extraRounds\<close> and the
  event scans belong to the shared \<^verbatim>\<open>factory\<close> of \<^verbatim>\<open>./core\<close>; the events are
  given by the one argument the code reads (\<^verbatim>\<open>_round\<close>, \<^verbatim>\<open>_source\<close>).
  \<open>totalContributed\<close> is \<^verbatim>\<open>getTotalContributed\<close> of \<^verbatim>\<open>./contributions\<close>
  (count and amount). \<open>localNow\<close> is the clock behind \<^verbatim>\<open>DateTime.local()\<close>, in
  milliseconds; \<^verbatim>\<open>DateTime.local()\<close> is a valid \<^verbatim>\<open>DateTime\<close>.
  \<open>fixedNumberFromValue\<close> is \<^verbatim>\<open>FixedNumber.fromValue\<close> of the numeric library, which
  returns a fixed-point number or throws a numeric fault (it does for a value with more
  decimals than its format holds); \<open>None\<close> is the fault.
\<close>

record ledger =
  factoryAddress :: address
  extraRounds :: "address list"
  roundStartedEvents :: "address list"
  fundingSourceAddedEvents :: "address list"
  fundingSourceRemovedEvents :: "address list"
  fundingRoundAt :: "address \<Rightarrow> FundingRoundContract"
  maciAt :: "address \<Rightarrow> MaciContract"
  erc20At :: "address \<Rightarrow> ERC20Contract"
  totalContributed :: "address \<Rightarrow> nat \<times> BigNumber"
  localNow :: int
  fixedNumberFromValue :: "BigNumber \<Rightarrow> nat \<Rightarrow> FixedNumber option"

definition fromValue :: "ledger \<Rightarrow> BigNumber \<Rightarrow> nat \<Rightarrow> error + FixedNumber" where
  "fromValue env v decimals =
     (case fixedNumberFromValue env v decimals of
        None \<Rightarrow> Inl NumericFault
      | Some fixed \<Rightarrow> Inr fixed)"

text \<open>
  \<^verbatim>\<open>getApprovedFunding\<close>: the loop over the added sources with its accumulator
  \<^verbatim>\<open>total\<close> (written \<open>total'\<close>). The \<^verbatim>\<open>fundingRound\<close> parameter of the source is never read.
\<close>

fun approvedFundingLoop ::
  "ledger \<Rightarrow> ERC20Contract \<Rightarrow> address list \<Rightarrow> BigNumber \<Rightarrow> BigNumber" where
  "approvedFundingLoop env token [] total' = total'"
| "approvedFundingLoop env token (sourceAddress # rest) total' =
     (case find (\<lambda>source. source = sourceAddress) (fundingSourceRemovedEvents env) of
        Some removed \<Rightarrow> approvedFundingLoop env token rest total'
      | None \<Rightarrow>
          (let allowance = erc20_allowance token sourceAddress (factoryAddress env);
               balance = erc20_balanceOf token sourceAddress;
               contribution = (if allowance < balance then allowance else balance)
           in approvedFundingLoop env token rest (total' + contribution)))"

definition getApprovedFunding :: "ledger \<Rightarrow> ERC20Contract \<Rightarrow> BigNumber" where
  "getApprovedFunding env token =
     approvedFundingLoop env token (fundingSourceAddedEvents env) 0"

definition getRoundNumber :: "ledger \<Rightarrow> address \<Rightarrow> error + nat" where
  "getRoundNumber env roundAddress =
     (case findIndex (\<lambda>round. toLowerCase round = toLowerCase roundAddress)
             (roundStartedEvents env) of
        None \<Rightarrow> Inl RoundDoesNotExist
      | Some roundIndex \<Rightarrow> Inr (roundIndex + length (extraRounds env)))"

text \<open>
  The three-way branch of \<^verbatim>\<open>getRoundInfo\<close> that fixes \<^verbatim>\<open>status\<close>,
  \<^verbatim>\<open>contributions\<close> and \<^verbatim>\<open>matchingPool\<close> together, with \<^verbatim>\<open>now\<close> and
  the two deadlines as the function computed them before.
\<close>

definition roundAccounting ::
  "ledger \<Rightarrow> FundingRoundContract \<Rightarrow> ERC20Contract \<Rightarrow> nat \<times> BigNumber \<Rightarrow>
   DateTime \<Rightarrow> DateTime \<Rightarrow> DateTime \<Rightarrow> RoundStatus \<times> BigNumber \<times> BigNumber" where
  "roundAccounting env fundingRound nativeToken contributionsInfo now sDeadline vDeadline =
     (if fr_isCancelled fundingRound then (Cancelled, 0, 0)
      else if fr_isFinalized fundingRound then
        (Finalized,
         fr_totalSpent fundingRound * fr_voiceCreditFactor fundingRound,
         fr_matchingPoolSize fundingRound)
      else
        (let st = (if before now sDeadline then Contributing
                   else if before now vDeadline then Reallocating
                   else Tallying);
             lockedFunding = erc20_balanceOf nativeToken (factoryAddress env);
             approvedFunding = getApprovedFunding env nativeToken
         in (st, snd contributionsInfo, lockedFunding + approvedFunding)))"

text \<open>
  \<^verbatim>\<open>getRoundInfo\<close>. The local values that share their name with a field of the
  returned record are written \<open>number\<close> (\<^verbatim>\<open>roundNumber\<close>), \<open>sDeadline\<close> and
  \<open>vDeadline\<close> (the two deadlines), \<open>blockEnd\<close> (\<^verbatim>\<open>endBlock\<close>), \<open>st\<close>,
  \<open>contributed\<close>, \<open>pool\<close> and \<open>funds\<close> (\<^verbatim>\<open>status\<close>, \<^verbatim>\<open>contributions\<close>,
  \<^verbatim>\<open>matchingPool\<close>, \<^verbatim>\<open>totalFunds\<close>). The four conversions by
  \<^verbatim>\<open>toNumber\<close>, the constructor of the coordinator key and the three conversions by
  \<^verbatim>\<open>FixedNumber.fromValue\<close> fail in the order in which the code reaches them.
\<close>

definition getRoundInfo :: "ledger \<Rightarrow> address \<Rightarrow> error + RoundInfo" where
  "getRoundInfo env roundAddress =
     (case getRoundNumber env roundAddress of
        Inl e \<Rightarrow> Inl e
      | Inr number \<Rightarrow>
     (let fundingRound = fundingRoundAt env roundAddress;
          maci = maciAt env (fr_maci fundingRound);
          signUpTimestamp = maci_signUpTimestamp maci;
          signUpDurationSeconds = maci_signUpDurationSeconds maci;
          votingDurationSeconds = maci_votingDurationSeconds maci
      in case toNumber (signUpTimestamp + signUpDurationSeconds) of
        Inl e \<Rightarrow> Inl e
      | Inr signUpSeconds \<Rightarrow>
     (case toNumber (signUpTimestamp + signUpDurationSeconds + votingDurationSeconds) of
        Inl e \<Rightarrow> Inl e
      | Inr votingSeconds \<Rightarrow>
     (let sDeadline = fromSeconds signUpSeconds;
          vDeadline = fromSeconds votingSeconds;
          blockEnd = fr_startBlock fundingRound
                       + (signUpDurationSeconds + votingDurationSeconds) div 15
      in case newPubKey (maci_coordinatorPubKey maci) of
        Inl e \<Rightarrow> Inl e
      | Inr pubKey \<Rightarrow>
     (let nativeToken = erc20At env (fr_nativeToken fundingRound);
          decimals = erc20_decimals nativeToken;
          now = Instant (localNow env);
          contributionsInfo = totalContributed env roundAddress;
          (st, contributed, pool) =
             roundAccounting env fundingRound nativeToken contributionsInfo
               now sDeadline vDeadline;
          funds = pool + contributed
      in case toNumber (fr_startBlock fundingRound) of
        Inl e \<Rightarrow> Inl e
      | Inr startNumber \<Rightarrow>
     (case toNumber blockEnd of
        Inl e \<Rightarrow> Inl e
      | Inr endNumber \<Rightarrow>
     (case fromValue env funds decimals of
        Inl e \<Rightarrow> Inl e
      | Inr fixedFunds \<Rightarrow>
     (case fromValue env pool decimals of
        Inl e \<Rightarrow> Inl e
      | Inr fixedPool \<Rightarrow>
     (case fromValue env contributed decimals of
        Inl e \<Rightarrow> Inl e
      | Inr fixedContributed \<Rightarrow>
          Inr \<lparr> fundingRoundAddress = roundAddress,
                roundNumber = number,
                userRegistryAddress = fr_userRegistry fundingRound,
                maciAddress = fr_maci fundingRound,
                recipientTreeDepth = maci_voteOptionTreeDepth maci,
                startBlock = startNumber,
                endBlock = endNumber,
                coordinatorPubKey = pubKey,
                nativeTokenAddress = fr_nativeToken fundingRound,
                nativeTokenSymbol = erc20_symbol nativeToken,
                nativeTokenDecimals = decimals,
                voiceCreditFactor = fr_voiceCreditFactor fundingRound,
                status = st,
                signUpDeadline = sDeadline,
                votingDeadline = vDeadline,
                totalFunds = fixedFunds,
                matchingPool = fixedPool,
                contributions = fixedContributed,
                contributors = fst contributionsInfo \<rparr>)))))))))"

section \<open>Recipient registry reconciliation\<close>

definition KLEROS_CURATE_URL :: string where
  "KLEROS_CURATE_URL =
     ''https://curate.kleros.io/tcr/0x2E3B10aBf091cdc53cC892A50daBDb432e220398''"

datatype TcrItemStatus = Absent | Registered | RegistrationRequested | ClearingRequested

fun statusValue :: "TcrItemStatus \<Rightarrow> nat" where
  "statusValue Absent = 0"
| "statusValue Registered = 1"
| "statusValue RegistrationRequested = 2"
| "statusValue ClearingRequested = 3"

record TcrColumn =
  label :: string
  type' :: string

text \<open>
  \<^verbatim>\<open>Project\<close> is declared in \<^verbatim>\<open>./projects\<close>; its fields are the ones the
  registry module writes. A presentation field taken from a position the decoder did
  not fill is \<^verbatim>\<open>undefined\<close>, here \<open>None\<close>.
\<close>

record ProjectExtra =
  tcrItemStatus :: nat
  tcrItemUrl :: string

record Project =
  id' :: string
  address :: "string option"
  name :: "string option"
  description :: "string option"
  imageUrl :: string
  index :: nat
  isHidden :: bool
  isLocked :: bool
  extra :: "ProjectExtra option"

record TcrItemData =
  item_address :: "string option"
  item_name :: "string option"
  item_description :: "string option"
  item_imageUrl :: string

record RecipientAddedEvent =
  added_blockNumber :: nat
  added_tcrItemId :: string
  added_metadata :: string
  added_index :: BigNumber

record RecipientRemovedEvent =
  removed_blockNumber :: nat
  removed_tcrItemId :: string

text \<open>
  The curated list and the local registry as contracts: event scans in emission order
  (\<^verbatim>\<open>MetaEvidence\<close> by its \<^verbatim>\<open>_evidence\<close>, \<^verbatim>\<open>ItemSubmitted\<close> by its
  \<^verbatim>\<open>_itemID\<close>) and the getter \<^verbatim>\<open>getItemInfo\<close> (item data, item status).
\<close>

record TcrContract =
  tcr_metaEvidenceEvents :: "string list"
  tcr_itemSubmittedEvents :: "string list"
  tcr_getItemInfo :: "string \<Rightarrow> string \<times> BigNumber"

record RegistryContract =
  reg_tcr :: address
  reg_recipientAddedEvents :: "RecipientAddedEvent list"
  reg_recipientRemovedEvents :: "RecipientRemovedEvent list"

text \<open>
  The surroundings of the registry module. \<open>fetchColumns\<close> stands for
  \<^verbatim>\<open>fetch(url)\<close>, \<^verbatim>\<open>.json()\<close> and the read of \<^verbatim>\<open>.metadata.columns\<close>;
  \<open>gtcrDecode\<close> is the external metadata decoder, which either returns the decoded
  values or throws.
\<close>

record registryLedger =
  ipfsGatewayUrl :: string
  fetchColumns :: "string \<Rightarrow> error + TcrColumn list"
  gtcrDecode :: "TcrColumn list \<Rightarrow> string \<Rightarrow> error + string list"
  registryAt :: "address \<Rightarrow> RegistryContract"
  tcrAt :: "address \<Rightarrow> TcrContract"

text \<open>Reading a JavaScript array: outside the array the value is \<^verbatim>\<open>undefined\<close>.\<close>

definition at :: "'a list \<Rightarrow> nat \<Rightarrow> 'a option" where
  "at xs i = (if i < length xs then Some (xs ! i) else None)"

text \<open>A value inside a template literal.\<close>

definition interpolate :: "string option \<Rightarrow> string" where
  "interpolate v = (case v of None \<Rightarrow> ''undefined'' | Some s \<Rightarrow> s)"

text \<open>
  \<^verbatim>\<open>metaEvidenceEvents[metaEvidenceEvents.length - 2]\<close> is \<^verbatim>\<open>undefined\<close> when
  there are fewer than two events, and \<^verbatim>\<open>.args\<close> of it throws.
\<close>

definition getTcrColumns :: "registryLedger \<Rightarrow> TcrContract \<Rightarrow> error + TcrColumn list" where
  "getTcrColumns env tcr =
     (let metaEvidenceEvents = tcr_metaEvidenceEvents tcr
      in if length metaEvidenceEvents < 2 then Inl TypeError
         else (let ipfsPath = metaEvidenceEvents ! (length metaEvidenceEvents - 2)
               in fetchColumns env (ipfsGatewayUrl env @ ipfsPath)))"

text \<open>
  \<^verbatim>\<open>decodeTcrItemData\<close> replaces \<^verbatim>\<open>console.error\<close> by a function that does
  nothing while the decoder runs, so nothing the decoder reports there has an effect.
  There is no \<^verbatim>\<open>try\<close> around the decoder: what it throws leaves the function.
\<close>

definition decodeTcrItemData ::
  "registryLedger \<Rightarrow> TcrColumn list \<Rightarrow> string \<Rightarrow> error + TcrItemData" where
  "decodeTcrItemData env columns data =
     (case gtcrDecode env columns data of
        Inl e \<Rightarrow> Inl e
      | Inr decodedMetadata \<Rightarrow>
          Inr \<lparr> item_address = at decodedMetadata 1,
                item_name = at decodedMetadata 0,
                item_description = at decodedMetadata 3,
                item_imageUrl = ipfsGatewayUrl env @ interpolate (at decodedMetadata 2) \<rparr>)"

definition decodeRecipientAdded ::
  "registryLedger \<Rightarrow> RecipientAddedEvent \<Rightarrow> TcrColumn list \<Rightarrow> error + Project" where
  "decodeRecipientAdded env event columns =
     (case decodeTcrItemData env columns (added_metadata event) of
        Inl e \<Rightarrow> Inl e
      | Inr d \<Rightarrow>
          (case toNumber (added_index event) of
             Inl e \<Rightarrow> Inl e
           | Inr i \<Rightarrow>
               Inr \<lparr> id' = added_tcrItemId event,
                     address = item_address d,
                     name = item_name d,
                     description = item_description d,
                     imageUrl = item_imageUrl d,
                     index = i,
                     isHidden = False,
                     isLocked = False,
                     extra = None \<rparr>))"

text \<open>
  The optional window bounds \<^verbatim>\<open>startBlock\<close> and \<^verbatim>\<open>endBlock\<close> (written with a
  prime, the plain names being fields of \<open>RoundInfo\<close>) are \<open>nat option\<close>. The code tests them by truthiness:
  \<^verbatim>\<open>endBlock && ...\<close> and \<^verbatim>\<open>!startBlock || ...\<close> treat \<^verbatim>\<open>undefined\<close> and
  \<^verbatim>\<open>0\<close> alike.
\<close>

definition truthy :: "nat option \<Rightarrow> bool" where
  "truthy b = (case b of None \<Rightarrow> False | Some n \<Rightarrow> n \<noteq> 0)"

text \<open>The body of the first loop of \<^verbatim>\<open>getProjects\<close>, for one added event.\<close>

definition addedProject ::
  "registryLedger \<Rightarrow> TcrColumn list \<Rightarrow> RecipientRemovedEvent list \<Rightarrow>
   nat option \<Rightarrow> nat option \<Rightarrow> RecipientAddedEvent \<Rightarrow> error + Project" where
  "addedProject env tcrColumns recipientRemovedEvents startBlock' endBlock' event =
     (case decodeRecipientAdded env event tcrColumns of
        Inl e \<Rightarrow> Inl e
      | Inr project \<Rightarrow>
          (let project1 =
                 (if truthy endBlock' \<and>
                     (case endBlock' of None \<Rightarrow> False
                      | Some e \<Rightarrow> added_blockNumber event \<ge> e)
                  then project\<lparr>isHidden := True\<rparr> else project);
               removed = find (\<lambda>ev. removed_tcrItemId ev = id' project1)
                           recipientRemovedEvents
           in case removed of
                None \<Rightarrow> Inr project1
              | Some r \<Rightarrow>
                  (if \<not> truthy startBlock' \<or>
                      (truthy startBlock' \<and>
                       (case startBlock' of None \<Rightarrow> False
                        | Some s \<Rightarrow> removed_blockNumber r \<le> s))
                   then Inr (project1\<lparr>isHidden := True\<rparr>)
                   else Inr (project1\<lparr>isLocked := True\<rparr>))))"

fun recipientAddedLoop ::
  "registryLedger \<Rightarrow> TcrColumn list \<Rightarrow> RecipientRemovedEvent list \<Rightarrow>
   nat option \<Rightarrow> nat option \<Rightarrow> RecipientAddedEvent list \<Rightarrow> Project list \<Rightarrow>
   error + Project list" where
  "recipientAddedLoop env cols removedEvents sb eb [] projects = Inr projects"
| "recipientAddedLoop env cols removedEvents sb eb (event # rest) projects =
     (case addedProject env cols removedEvents sb eb event of
        Inl e \<Rightarrow> Inl e
      | Inr project \<Rightarrow>
          recipientAddedLoop env cols removedEvents sb eb rest (projects @ [project]))"

text \<open>The second loop of \<^verbatim>\<open>getProjects\<close>, over the curated list's submissions.\<close>

fun itemSubmittedLoop ::
  "registryLedger \<Rightarrow> TcrContract \<Rightarrow> TcrColumn list \<Rightarrow> string list \<Rightarrow> Project list \<Rightarrow>
   error + Project list" where
  "itemSubmittedLoop env tcr cols [] projects = Inr projects"
| "itemSubmittedLoop env tcr cols (tcrItemId # rest) projects =
     (case find (\<lambda>item. id' item = tcrItemId) projects of
        Some registered \<Rightarrow> itemSubmittedLoop env tcr cols rest projects
      | None \<Rightarrow>
          (case tcr_getItemInfo tcr tcrItemId of
             (tcrItemData, itemStatus) \<Rightarrow>
          (case toNumber itemStatus of
             Inl e \<Rightarrow> Inl e
           | Inr st \<Rightarrow>
               if st \<noteq> statusValue Registered
               then itemSubmittedLoop env tcr cols rest projects
               else
                 (case decodeTcrItemData env cols tcrItemData of
                    Inl e \<Rightarrow> Inl e
                  | Inr d \<Rightarrow>
                      itemSubmittedLoop env tcr cols rest
                        (projects @
                          [\<lparr> id' = tcrItemId,
                              address = item_address d,
                              name = item_name d,
                              description = item_description d,
                              imageUrl = item_imageUrl d,
                              index = 0,
                              isHidden = False,
                              isLocked = False,
                              extra = Some \<lparr> tcrItemStatus = statusValue Registered,
                                             tcrItemUrl = KLEROS_CURATE_URL @ ''/'' @ tcrItemId \<rparr>
                            \<rparr>])))))"

definition getProjects ::
  "registryLedger \<Rightarrow> address \<Rightarrow> nat option \<Rightarrow> nat option \<Rightarrow> error + Project list" where
  "getProjects env registryAddress startBlock' endBlock' =
     (let registry = registryAt env registryAddress;
          tcr = tcrAt env (reg_tcr registry)
      in case getTcrColumns env tcr of
           Inl e \<Rightarrow> Inl e
         | Inr tcrColumns \<Rightarrow>
             (case recipientAddedLoop env tcrColumns (reg_recipientRemovedEvents registry)
                     startBlock' endBlock' (reg_recipientAddedEvents registry) [] of
                Inl e \<Rightarrow> Inl e
              | Inr projects \<Rightarrow>
                  itemSubmittedLoop env tcr tcrColumns (tcr_itemSubmittedEvents tcr) projects))"

text \<open>
  \<^verbatim>\<open>getProject\<close>; \<open>None\<close> is \<^verbatim>\<open>null\<close>. The two event filters carry the
  recipient id as their topic.
\<close>

definition getProject ::
  "registryLedger \<Rightarrow> address \<Rightarrow> string \<Rightarrow> error + Project option" where
  "getProject env registryAddress recipientId =
     (let registry = registryAt env registryAddress;
          tcr = tcrAt env (reg_tcr registry)
      in case getTcrColumns env tcr of
           Inl e \<Rightarrow> Inl e
         | Inr tcrColumns \<Rightarrow>
      (case tcr_getItemInfo tcr recipientId of
         (tcrItemData, itemStatus) \<Rightarrow>
      if tcrItemData = ''0x'' then Inr None
      else
      (case decodeTcrItemData env tcrColumns tcrItemData of
         Inl e \<Rightarrow> Inl e
       | Inr d \<Rightarrow>
      (case toNumber itemStatus of
         Inl e \<Rightarrow> Inl e
       | Inr st \<Rightarrow>
      (let project = \<lparr> id' = recipientId,
                        address = item_address d,
                        name = item_name d,
                        description = item_description d,
                        imageUrl = item_imageUrl d,
                        index = 0,
                        isHidden = False,
                        isLocked = False,
                        extra = Some \<lparr> tcrItemStatus = st,
                                       tcrItemUrl = KLEROS_CURATE_URL @ ''/'' @ recipientId \<rparr> \<rparr>;
           recipientAddedEvents =
             filter (\<lambda>ev. added_tcrItemId ev = recipientId) (reg_recipientAddedEvents registry);
           recipientRemovedEvents =
             filter (\<lambda>ev. removed_tcrItemId ev = recipientId)
               (reg_recipientRemovedEvents registry)
       in case (case recipientAddedEvents of
                  [] \<Rightarrow> Inr project
                | recipientAddedEvent # _ \<Rightarrow>
                    (case toNumber (added_index recipientAddedEvent) of
                       Inl e \<Rightarrow> Inl e
                     | Inr i \<Rightarrow> Inr (project\<lparr>index := i\<rparr>))) of
            Inl e \<Rightarrow> Inl e
          | Inr project1 \<Rightarrow>
              Inr (Some (if recipientRemovedEvents \<noteq> []
                         then project1\<lparr>isLocked := True\<rparr> else project1)))))))"

section \<open>Definitions used to state the properties\<close>

text \<open>
  The active funding sources in the words of the specification: the set of sources that
  have an added event and no removed event for the same address.
\<close>

definition activeSources :: "ledger \<Rightarrow> address set" where
  "activeSources env =
     {source \<in> set (fundingSourceAddedEvents env).
        source \<notin> set (fundingSourceRemovedEvents env)}"

text \<open>
  The added events the loop of \<^verbatim>\<open>getApprovedFunding\<close> counts, in emission order: one
  entry per added event whose source has no removed event.
\<close>

definition countedSources :: "ledger \<Rightarrow> address list" where
  "countedSources env =
     filter (\<lambda>source. source \<notin> set (fundingSourceRemovedEvents env))
       (fundingSourceAddedEvents env)"

definition sourceAllowance :: "ledger \<Rightarrow> ERC20Contract \<Rightarrow> address \<Rightarrow> BigNumber" where
  "sourceAllowance env token source = erc20_allowance token source (factoryAddress env)"

definition sourceContribution :: "ledger \<Rightarrow> ERC20Contract \<Rightarrow> address \<Rightarrow> BigNumber" where
  "sourceContribution env token source =
     min (sourceAllowance env token source) (erc20_balanceOf token source)"

text \<open>
  The conversions of one call of \<^verbatim>\<open>getRoundInfo\<close> that can fail once the round number
  is found: the two deadlines, the start and the estimated end block must fit a
  JavaScript number, the coordinator key must pass the constructor's assertions, and the
  numeric library must return for the total, the matching pool and the contributions.
\<close>

definition roundConverts :: "ledger \<Rightarrow> address \<Rightarrow> bool" where
  "roundConverts env roundAddress =
     (let fundingRound = fundingRoundAt env roundAddress;
          maci = maciAt env (fr_maci fundingRound);
          nativeToken = erc20At env (fr_nativeToken fundingRound);
          signUpTimestamp = maci_signUpTimestamp maci;
          signUpDurationSeconds = maci_signUpDurationSeconds maci;
          votingDurationSeconds = maci_votingDurationSeconds maci;
          accounting =
            roundAccounting env fundingRound nativeToken (totalContributed env roundAddress)
              (Instant (localNow env))
              (fromSeconds (signUpTimestamp + signUpDurationSeconds))
              (fromSeconds (signUpTimestamp + signUpDurationSeconds + votingDurationSeconds));
          contributed = fst (snd accounting);
          pool = snd (snd accounting)
      in signUpTimestamp + signUpDurationSeconds + votingDurationSeconds \<le> MAX_SAFE_INTEGER \<and>
         fst (maci_coordinatorPubKey maci) < SNARK_FIELD_SIZE \<and>
         snd (maci_coordinatorPubKey maci) < SNARK_FIELD_SIZE \<and>
         fr_startBlock fundingRound + (signUpDurationSeconds + votingDurationSeconds) div 15
           \<le> MAX_SAFE_INTEGER \<and>
         fixedNumberFromValue env (pool + contributed) (erc20_decimals nativeToken) \<noteq> None \<and>
         fixedNumberFromValue env pool (erc20_decimals nativeToken) \<noteq> None \<and>
         fixedNumberFromValue env contributed (erc20_decimals nativeToken) \<noteq> None)"

subsection \<open>A small ledger for concrete evaluation\<close>

text \<open>
  One factory with two started rounds, one extra round, and two funding sources of which
  the first was removed again. The flags, the sign-up timestamp and the clock (in
  milliseconds) are parameters. The numeric library is represented by a function that
  returns for up to 18 decimals and faults beyond.
\<close>

definition exampleRound :: "bool \<Rightarrow> bool \<Rightarrow> FundingRoundContract" where
  "exampleRound finalized cancelled =
     \<lparr> fr_maci = ''0xM1'', fr_nativeToken = ''0xD1'', fr_userRegistry = ''0xU1'',
       fr_startBlock = 10, fr_voiceCreditFactor = 2,
       fr_isFinalized = finalized, fr_isCancelled = cancelled,
       fr_totalSpent = 7, fr_matchingPoolSize = 9 \<rparr>"

definition exampleMaci :: "nat \<Rightarrow> MaciContract" where
  "exampleMaci T =
     \<lparr> maci_voteOptionTreeDepth = 3, maci_signUpTimestamp = T,
       maci_signUpDurationSeconds = 100, maci_votingDurationSeconds = 50,
       maci_coordinatorPubKey = (1, 2) \<rparr>"

definition exampleToken :: ERC20Contract where
  "exampleToken =
     \<lparr> erc20_symbol = ''DAI'', erc20_decimals = 18,
       erc20_balanceOf = (\<lambda>owner. if owner = ''0xB'' then 5 else 3),
       erc20_allowance = (\<lambda>owner spender. if owner = ''0xB'' then 8 else 1) \<rparr>"

definition exampleLedger :: "bool \<Rightarrow> bool \<Rightarrow> nat \<Rightarrow> int \<Rightarrow> ledger" where
  "exampleLedger finalized cancelled T now =
     \<lparr> factoryAddress = ''0xF1'',
       extraRounds = [''0xE1''],
       roundStartedEvents = [''0xAb'', ''0xCd''],
       fundingSourceAddedEvents = [''0xA'', ''0xB''],
       fundingSourceRemovedEvents = [''0xA''],
       fundingRoundAt = (\<lambda>a. exampleRound finalized cancelled),
       maciAt = (\<lambda>a. exampleMaci T),
       erc20At = (\<lambda>a. exampleToken),
       totalContributed = (\<lambda>a. (4, 11)),
       localNow = now,
       fixedNumberFromValue =
         (\<lambda>v decimals. if decimals \<le> 18 then Some (FixedNumber v decimals) else None) \<rparr>"

subsection \<open>A small registry for concrete evaluation\<close>

text \<open>
  One registry bound to one curated list. The curated list has the two meta-evidence
  events of a registration, knows item \<open>0x09\<close> as registered and item \<open>0x07\<close> as
  requested, and has no data for any other item. The decoder, the local events and the
  submissions are parameters.
\<close>

definition exampleColumns :: "TcrColumn list" where
  "exampleColumns =
     [\<lparr>label = ''Name'', type' = ''text''\<rparr>, \<lparr>label = ''Address'', type' = ''address''\<rparr>,
      \<lparr>label = ''Image'', type' = ''image''\<rparr>, \<lparr>label = ''Description'', type' = ''long text''\<rparr>]"

definition addedEvent :: "nat \<Rightarrow> string \<Rightarrow> nat \<Rightarrow> RecipientAddedEvent" where
  "addedEvent blockNumber itemId recipientIndex =
     \<lparr> added_blockNumber = blockNumber, added_tcrItemId = itemId,
       added_metadata = ''0xc0de'', added_index = recipientIndex \<rparr>"

definition removedEvent :: "nat \<Rightarrow> string \<Rightarrow> RecipientRemovedEvent" where
  "removedEvent blockNumber itemId =
     \<lparr> removed_blockNumber = blockNumber, removed_tcrItemId = itemId \<rparr>"

definition exampleDecoder :: "TcrColumn list \<Rightarrow> string \<Rightarrow> error + string list" where
  "exampleDecoder columns data = Inr [''Project'', ''0xRecipient'', ''/ipfs/image'', ''About'']"

definition failingDecoder :: "TcrColumn list \<Rightarrow> string \<Rightarrow> error + string list" where
  "failingDecoder columns data = Inl DecodeError"

definition exampleTcr :: "string list \<Rightarrow> TcrContract" where
  "exampleTcr submitted =
     \<lparr> tcr_metaEvidenceEvents = [''/ipfs/registration'', ''/ipfs/clearing''],
       tcr_itemSubmittedEvents = submitted,
       tcr_getItemInfo =
         (\<lambda>item. if item = ''0x09'' then (''0xc0de'', 1)
                  else if item = ''0x07'' then (''0xc0de'', 2)
                  else (''0x'', 0)) \<rparr>"

definition exampleRegistryLedger ::
  "(TcrColumn list \<Rightarrow> string \<Rightarrow> error + string list) \<Rightarrow> RecipientAddedEvent list \<Rightarrow>
   RecipientRemovedEvent list \<Rightarrow> string list \<Rightarrow> registryLedger" where
  "exampleRegistryLedger decoder added removed submitted =
     \<lparr> ipfsGatewayUrl = ''https://ipfs.io'',
       fetchColumns = (\<lambda>url. Inr exampleColumns),
       gtcrDecode = decoder,
       registryAt =
         (\<lambda>a. \<lparr> reg_tcr = ''0xC1'', reg_recipientAddedEvents = added,
                  reg_recipientRemovedEvents = removed \<rparr>),
       tcrAt = (\<lambda>a. exampleTcr submitted) \<rparr>"

text \<open>
  The same curated list with a single meta-evidence event, so that there is no
  second-to-last one.
\<close>

definition singleEvidenceLedger :: registryLedger where
  "singleEvidenceLedger =
     (exampleRegistryLedger exampleDecoder [] [] [])
       \<lparr> tcrAt := (\<lambda>a. (exampleTcr [])\<lparr> tcr_metaEvidenceEvents := [''/ipfs/registration''] \<rparr>) \<rparr>"

section \<open>Properties of the round reconstruction\<close>

subsection \<open>Auxiliary facts\<close>

lemma toNumber_Inr: "toNumber b = Inr n \<Longrightarrow> n = b \<and> b \<le> MAX_SAFE_INTEGER"
  by (simp add: toNumber_def split: if_splits)

lemma toNumber_Inl: "toNumber b = Inl e \<Longrightarrow> e = NumericFault"
  by (simp add: toNumber_def split: if_splits)

lemma findIndex_None: "findIndex P xs = None \<longleftrightarrow> (\<forall>x \<in> set xs. \<not> P x)"
  by (induction xs) (auto split: option.splits)

lemma findIndex_Some:
  "findIndex P xs = Some i \<longleftrightarrow> i < length xs \<and> P (xs ! i) \<and> (\<forall>j < i. \<not> P (xs ! j))"
proof (induction xs arbitrary: i)
  case Nil
  then show ?case by simp
next
  case (Cons x xs)
  show ?case
  proof (cases "P x")
    case True
    then show ?thesis by (cases i) auto
  next
    case False
    show ?thesis
    proof (cases i)
      case 0
      with False show ?thesis by (auto split: option.splits)
    next
      case (Suc k)
      have "(\<forall>j<Suc k. \<not> P ((x # xs) ! j)) \<longleftrightarrow> (\<forall>j<k. \<not> P (xs ! j))"
        using False by (auto simp: less_Suc_eq_0_disj)
      with False Suc Cons.IH [of k] show ?thesis
        by (auto split: option.splits)
    qed
  qed
qed

lemma newPubKey_Inr: "newPubKey raw = Inr k \<Longrightarrow> k = raw \<and> fst raw < SNARK_FIELD_SIZE \<and> snd raw < SNARK_FIELD_SIZE"
  by (simp add: newPubKey_def split: if_splits)

lemma newPubKey_Inl: "newPubKey raw = Inl e \<Longrightarrow> e = AssertionError"
  by (simp add: newPubKey_def split: if_splits)

lemma fromValue_Inl: "fromValue env v d = Inl e \<Longrightarrow> e = NumericFault"
  by (simp add: fromValue_def split: option.splits)

lemma fromValue_Inr: "fromValue env v d = Inr f \<Longrightarrow> fixedNumberFromValue env v d = Some f"
  by (simp add: fromValue_def split: option.splits)

lemma getRoundInfo_Inr:
  assumes "getRoundInfo env a = Inr info"
  shows "\<exists>n. getRoundNumber env a = Inr n \<and> roundNumber info = n"
    and "signUpDeadline info =
           fromSeconds (maci_signUpTimestamp (maciAt env (fr_maci (fundingRoundAt env a)))
             + maci_signUpDurationSeconds (maciAt env (fr_maci (fundingRoundAt env a))))"
    and "votingDeadline info =
           fromSeconds (maci_signUpTimestamp (maciAt env (fr_maci (fundingRoundAt env a)))
             + maci_signUpDurationSeconds (maciAt env (fr_maci (fundingRoundAt env a)))
             + maci_votingDurationSeconds (maciAt env (fr_maci (fundingRoundAt env a))))"
    and "status info =
           fst (roundAccounting env (fundingRoundAt env a)
                  (erc20At env (fr_nativeToken (fundingRoundAt env a)))
                  (totalContributed env a) (Instant (localNow env))
                  (signUpDeadline info) (votingDeadline info))"
  using assms
  by (auto simp: getRoundInfo_def Let_def split: sum.splits prod.splits dest!: toNumber_Inr)

lemma getRoundInfo_Inl:
  assumes "getRoundInfo env a = Inl e"
  shows "getRoundNumber env a = Inl e \<or>
         ((e = NumericFault \<or> e = AssertionError) \<and> (\<exists>n. getRoundNumber env a = Inr n))"
  using assms
  by (auto simp: getRoundInfo_def Let_def split: sum.splits prod.splits
           dest: toNumber_Inl newPubKey_Inl fromValue_Inl)

lemma getRoundInfo_returns:
  "(\<exists>info. getRoundInfo env a = Inr info) \<longleftrightarrow>
   (\<exists>n. getRoundNumber env a = Inr n) \<and> roundConverts env a"
proof
  assume "\<exists>info. getRoundInfo env a = Inr info"
  then obtain info where "getRoundInfo env a = Inr info" ..
  then show "(\<exists>n. getRoundNumber env a = Inr n) \<and> roundConverts env a"
    by (auto simp: getRoundInfo_def roundConverts_def Let_def
             split: sum.splits prod.splits
             dest!: toNumber_Inr newPubKey_Inr fromValue_Inr)
next
  assume h: "(\<exists>n. getRoundNumber env a = Inr n) \<and> roundConverts env a"
  then obtain n where n: "getRoundNumber env a = Inr n" by blast
  from h have c: "roundConverts env a" by simp
  show "\<exists>info. getRoundInfo env a = Inr info"
    using n c
    by (auto simp: getRoundInfo_def roundConverts_def Let_def toNumber_def newPubKey_def
                   fromValue_def
             split: prod.splits)
qed

lemmas example_round_defs =
  getRoundInfo_def getRoundNumber_def exampleLedger_def exampleRound_def exampleMaci_def
  exampleToken_def toLowerCase_def lowerChar_def toNumber_def MAX_SAFE_INTEGER_def
  fromSeconds_def MAX_DATE_def newPubKey_def SNARK_FIELD_SIZE_def roundAccounting_def
  getApprovedFunding_def fromValue_def Let_def

lemma getRoundNumber_found:
  assumes "i < length (roundStartedEvents env)"
    and "toLowerCase (roundStartedEvents env ! i) = toLowerCase a"
    and "\<forall>j < i. toLowerCase (roundStartedEvents env ! j) \<noteq> toLowerCase a"
  shows "getRoundNumber env a = Inr (i + length (extraRounds env))"
proof -
  have "findIndex (\<lambda>round. toLowerCase round = toLowerCase a) (roundStartedEvents env) = Some i"
    using assms by (simp add: findIndex_Some)
  then show ?thesis by (simp add: getRoundNumber_def)
qed

lemma getRoundNumber_absent:
  "getRoundNumber env a = Inl e \<longleftrightarrow>
     e = RoundDoesNotExist \<and> toLowerCase a \<notin> set (map toLowerCase (roundStartedEvents env))"
proof (cases "findIndex (\<lambda>round. toLowerCase round = toLowerCase a) (roundStartedEvents env)")
  case None
  then have "toLowerCase a \<notin> set (map toLowerCase (roundStartedEvents env))"
    by (auto simp: findIndex_None)
  moreover have "getRoundNumber env a = Inl RoundDoesNotExist"
    by (simp add: getRoundNumber_def None)
  ultimately show ?thesis by auto
next
  case (Some i)
  then have "i < length (roundStartedEvents env)"
    and "toLowerCase (roundStartedEvents env ! i) = toLowerCase a"
    by (simp_all add: findIndex_Some)
  then have "toLowerCase a \<in> toLowerCase ` set (roundStartedEvents env)"
    using imageI [OF nth_mem [of i "roundStartedEvents env"], of toLowerCase] by simp
  then have "toLowerCase a \<in> set (map toLowerCase (roundStartedEvents env))"
    by simp
  with Some show ?thesis by (simp add: getRoundNumber_def)
qed

lemma getRoundNumber_returns:
  "(\<exists>n. getRoundNumber env a = Inr n) \<longleftrightarrow>
   toLowerCase a \<in> set (map toLowerCase (roundStartedEvents env))"
proof (cases "getRoundNumber env a")
  case (Inl e)
  then show ?thesis
    using getRoundNumber_absent [of env a e] by simp
next
  case (Inr n)
  have "getRoundNumber env a \<noteq> Inl RoundDoesNotExist"
    using Inr by simp
  then have "toLowerCase a \<in> set (map toLowerCase (roundStartedEvents env))"
    using getRoundNumber_absent [of env a RoundDoesNotExist] by blast
  with Inr show ?thesis by simp
qed

lemma example_round_found:
  "toLowerCase ''0xcD'' \<in> set (map toLowerCase (roundStartedEvents (exampleLedger f c T n)))"
  by (simp add: exampleLedger_def toLowerCase_def lowerChar_def)

lemma example_round_converts:
  "T \<le> 1000000 \<Longrightarrow> roundConverts (exampleLedger f c T n) ''0xcD''"
  by (simp add: roundConverts_def exampleLedger_def exampleRound_def exampleMaci_def
                exampleToken_def MAX_SAFE_INTEGER_def SNARK_FIELD_SIZE_def Let_def)

lemma approvedFundingLoop_sum:
  "approvedFundingLoop env token adds acc =
     acc + (\<Sum>source \<leftarrow> filter (\<lambda>source. source \<notin> set (fundingSourceRemovedEvents env)) adds.
              min (erc20_allowance token source (factoryAddress env))
                  (erc20_balanceOf token source))"
proof (induction adds arbitrary: acc)
  case Nil
  then show ?case by simp
next
  case (Cons source rest)
  show ?case
  proof (cases "source \<in> set (fundingSourceRemovedEvents env)")
    case True
    then obtain r where "find (\<lambda>s. s = source) (fundingSourceRemovedEvents env) = Some r"
      by (cases "find (\<lambda>s. s = source) (fundingSourceRemovedEvents env)")
         (auto simp: find_None_iff)
    with True Cons.IH show ?thesis by simp
  next
    case False
    then have "find (\<lambda>s. s = source) (fundingSourceRemovedEvents env) = None"
      by (auto simp: find_None_iff)
    with False Cons.IH show ?thesis
      by (simp add: Let_def min_def)
  qed
qed

lemma sum_list_min_le:
  fixes f g :: "'a \<Rightarrow> nat"
  shows "(\<Sum>x \<leftarrow> xs. min (f x) (g x)) \<le> (\<Sum>x \<leftarrow> xs. f x)"
    and "(\<Sum>x \<leftarrow> xs. min (f x) (g x)) \<le> (\<Sum>x \<leftarrow> xs. g x)"
  by (induction xs) auto

lemma getApprovedFunding_localNow:
  "getApprovedFunding (env\<lparr>localNow := n\<rparr>) token = getApprovedFunding env token"
  by (simp add: getApprovedFunding_def approvedFundingLoop_sum)

lemma roundAccounting_funds:
  "snd (roundAccounting env fundingRound token info now sd vd) =
     (if fr_isCancelled fundingRound then (0, 0)
      else if fr_isFinalized fundingRound then
        (fr_totalSpent fundingRound * fr_voiceCreditFactor fundingRound,
         fr_matchingPoolSize fundingRound)
      else (snd info,
            erc20_balanceOf token (factoryAddress env) + getApprovedFunding env token))"
  by (simp add: roundAccounting_def Let_def)

lemma roundConverts_localNow:
  "roundConverts (env\<lparr>localNow := n\<rparr>) a = roundConverts env a"
  by (simp add: roundConverts_def roundAccounting_funds getApprovedFunding_localNow Let_def)

lemma getRoundInfo_at_clock:
  assumes found: "toLowerCase a \<in> set (map toLowerCase (roundStartedEvents env))"
    and conv: "roundConverts env a"
  shows "\<exists>info. getRoundInfo (env\<lparr>localNow := n\<rparr>) a = Inr info \<and>
           status info =
             fst (roundAccounting (env\<lparr>localNow := n\<rparr>) (fundingRoundAt env a)
                   (erc20At env (fr_nativeToken (fundingRoundAt env a)))
                   (totalContributed env a) (Instant n)
                   (fromSeconds
                     (maci_signUpTimestamp (maciAt env (fr_maci (fundingRoundAt env a)))
                      + maci_signUpDurationSeconds (maciAt env (fr_maci (fundingRoundAt env a)))))
                   (fromSeconds
                     (maci_signUpTimestamp (maciAt env (fr_maci (fundingRoundAt env a)))
                      + maci_signUpDurationSeconds (maciAt env (fr_maci (fundingRoundAt env a)))
                      + maci_votingDurationSeconds
                          (maciAt env (fr_maci (fundingRoundAt env a))))))"
proof -
  have "\<exists>k. getRoundNumber (env\<lparr>localNow := n\<rparr>) a = Inr k"
    using found by (simp add: getRoundNumber_returns)
  moreover have "roundConverts (env\<lparr>localNow := n\<rparr>) a"
    using conv by (simp add: roundConverts_localNow)
  ultimately obtain info where r: "getRoundInfo (env\<lparr>localNow := n\<rparr>) a = Inr info"
    using getRoundInfo_returns [of "env\<lparr>localNow := n\<rparr>" a] by blast
  from getRoundInfo_Inr(2,3,4) [OF r] r show ?thesis
    by simp
qed

subsection \<open>Status derivation\<close>

text \<open>
  Claim C1. Every record \<^verbatim>\<open>getRoundInfo\<close> returns carries its two deadlines and one
  status of \<open>RoundStatus\<close>, fixed in this order: \<open>Cancelled\<close> if the round's cancel flag
  is set, else \<open>Finalized\<close> if its finalize flag is set, else the value given by the
  clock and the two deadlines (\<open>Contributing\<close> before the sign-up deadline,
  \<open>Reallocating\<close> before the voting deadline, \<open>Tallying\<close> otherwise). With a flag set,
  neither the clock nor the deadlines are consulted. A record is returned exactly when the
  factory started the round and the conversions of the call succeed, whatever the flags
  and the clock.
\<close>

theorem getRoundInfo_status_precedence:
  "(\<forall>info. getRoundInfo env a = Inr info \<longrightarrow>
      signUpDeadline info =
        fromSeconds (maci_signUpTimestamp (maciAt env (fr_maci (fundingRoundAt env a)))
          + maci_signUpDurationSeconds (maciAt env (fr_maci (fundingRoundAt env a)))) \<and>
      votingDeadline info =
        fromSeconds (maci_signUpTimestamp (maciAt env (fr_maci (fundingRoundAt env a)))
          + maci_signUpDurationSeconds (maciAt env (fr_maci (fundingRoundAt env a)))
          + maci_votingDurationSeconds (maciAt env (fr_maci (fundingRoundAt env a)))) \<and>
      status info =
        (if fr_isCancelled (fundingRoundAt env a) then Cancelled
         else if fr_isFinalized (fundingRoundAt env a) then Finalized
         else if before (Instant (localNow env)) (signUpDeadline info) then Contributing
         else if before (Instant (localNow env)) (votingDeadline info) then Reallocating
         else Tallying)) \<and>
   ((\<exists>info. getRoundInfo env a = Inr info) \<longleftrightarrow>
      toLowerCase a \<in> set (map toLowerCase (roundStartedEvents env)) \<and> roundConverts env a)"
proof (rule conjI)
  show "\<forall>info. getRoundInfo env a = Inr info \<longrightarrow>
      signUpDeadline info =
        fromSeconds (maci_signUpTimestamp (maciAt env (fr_maci (fundingRoundAt env a)))
          + maci_signUpDurationSeconds (maciAt env (fr_maci (fundingRoundAt env a)))) \<and>
      votingDeadline info =
        fromSeconds (maci_signUpTimestamp (maciAt env (fr_maci (fundingRoundAt env a)))
          + maci_signUpDurationSeconds (maciAt env (fr_maci (fundingRoundAt env a)))
          + maci_votingDurationSeconds (maciAt env (fr_maci (fundingRoundAt env a)))) \<and>
      status info =
        (if fr_isCancelled (fundingRoundAt env a) then Cancelled
         else if fr_isFinalized (fundingRoundAt env a) then Finalized
         else if before (Instant (localNow env)) (signUpDeadline info) then Contributing
         else if before (Instant (localNow env)) (votingDeadline info) then Reallocating
         else Tallying)"
  proof (intro allI impI)
    fix info
    assume r: "getRoundInfo env a = Inr info"
    have "status info =
        (if fr_isCancelled (fundingRoundAt env a) then Cancelled
         else if fr_isFinalized (fundingRoundAt env a) then Finalized
         else if before (Instant (localNow env)) (signUpDeadline info) then Contributing
         else if before (Instant (localNow env)) (votingDeadline info) then Reallocating
         else Tallying)"
      using getRoundInfo_Inr(4) [OF r] by (simp add: roundAccounting_def Let_def)
    with getRoundInfo_Inr(2,3) [OF r]
    show "signUpDeadline info =
        fromSeconds (maci_signUpTimestamp (maciAt env (fr_maci (fundingRoundAt env a)))
          + maci_signUpDurationSeconds (maciAt env (fr_maci (fundingRoundAt env a)))) \<and>
      votingDeadline info =
        fromSeconds (maci_signUpTimestamp (maciAt env (fr_maci (fundingRoundAt env a)))
          + maci_signUpDurationSeconds (maciAt env (fr_maci (fundingRoundAt env a)))
          + maci_votingDurationSeconds (maciAt env (fr_maci (fundingRoundAt env a)))) \<and>
      status info =
        (if fr_isCancelled (fundingRoundAt env a) then Cancelled
         else if fr_isFinalized (fundingRoundAt env a) then Finalized
         else if before (Instant (localNow env)) (signUpDeadline info) then Contributing
         else if before (Instant (localNow env)) (votingDeadline info) then Reallocating
         else Tallying)"
      by simp
  qed
next
  show "(\<exists>info. getRoundInfo env a = Inr info) \<longleftrightarrow>
      toLowerCase a \<in> set (map toLowerCase (roundStartedEvents env)) \<and> roundConverts env a"
    by (simp only: getRoundInfo_returns getRoundNumber_returns)
qed

theorem getRoundInfo_status_precedence_witness:
  "\<not> isl (getRoundInfo (exampleLedger True True 1000 1060000) ''0xcD'') \<and>
   status (projr (getRoundInfo (exampleLedger True True 1000 1060000) ''0xcD'')) = Cancelled \<and>
   \<not> isl (getRoundInfo (exampleLedger True False 1000 1060000) ''0xcD'') \<and>
   status (projr (getRoundInfo (exampleLedger True False 1000 1060000) ''0xcD'')) = Finalized \<and>
   \<not> isl (getRoundInfo (exampleLedger False False 1000 1120000) ''0xcD'') \<and>
   status (projr (getRoundInfo (exampleLedger False False 1000 1120000) ''0xcD''))
     = Reallocating"
proof -
  have inst: "\<not> isl (getRoundInfo (exampleLedger f c 1000 n) ''0xcD'') \<and>
      status (projr (getRoundInfo (exampleLedger f c 1000 n) ''0xcD'')) =
        (if c then Cancelled else if f then Finalized
         else if n < 1100000 then Contributing
         else if n < 1150000 then Reallocating else Tallying)" for f c n
  proof -
    let ?env = "exampleLedger f c 1000 n"
    note at_env = getRoundInfo_status_precedence [of ?env "''0xcD''"]
    have "\<exists>info. getRoundInfo ?env ''0xcD'' = Inr info"
      using conjunct2 [OF at_env] example_round_found [of f c 1000 n]
        example_round_converts [of 1000 f c n]
      by simp
    then obtain info where r: "getRoundInfo ?env ''0xcD'' = Inr info" ..
    from conjunct1 [OF at_env] r
    have "status info =
        (if c then Cancelled else if f then Finalized
         else if n < 1100000 then Contributing
         else if n < 1150000 then Reallocating else Tallying)"
      by (simp add: exampleLedger_def exampleRound_def exampleMaci_def fromSeconds_def
                    MAX_DATE_def)
    with r show ?thesis by simp
  qed
  from inst [of True True 1060000] inst [of True False 1060000] inst [of False False 1120000]
  show ?thesis by simp
qed

text \<open>
  Claim C5, as amended. Sign-up lasts 100 seconds and voting 50 seconds from the sign-up
  timestamp \<open>T\<close>, no flag is set, the factory started the round, the conversions of the
  call succeed and the voting deadline \<open>T + 150\<close> is a valid date (at most 8.64e12
  seconds). Then \<^verbatim>\<open>getRoundInfo\<close> returns at each of the three clocks, with status
  \<open>Contributing\<close> at \<open>T + 60\<close> (the sign-up deadline \<open>T + 100\<close> has not passed),
  \<open>Reallocating\<close> at \<open>T + 120\<close> (between the two deadlines) and \<open>Tallying\<close> at
  \<open>T + 200\<close>.
\<close>

theorem getRoundInfo_status_scenario:
  assumes "maci_signUpTimestamp (maciAt env (fr_maci (fundingRoundAt env a))) = T"
    and "maci_signUpDurationSeconds (maciAt env (fr_maci (fundingRoundAt env a))) = 100"
    and "maci_votingDurationSeconds (maciAt env (fr_maci (fundingRoundAt env a))) = 50"
    and "\<not> fr_isFinalized (fundingRoundAt env a)"
    and "\<not> fr_isCancelled (fundingRoundAt env a)"
    and "T + 150 \<le> 8640000000000"
    and "toLowerCase a \<in> set (map toLowerCase (roundStartedEvents env))"
    and "roundConverts env a"
  shows "\<exists>early middle late.
           getRoundInfo (env\<lparr>localNow := 1000 * int (T + 60)\<rparr>) a = Inr early \<and>
           getRoundInfo (env\<lparr>localNow := 1000 * int (T + 120)\<rparr>) a = Inr middle \<and>
           getRoundInfo (env\<lparr>localNow := 1000 * int (T + 200)\<rparr>) a = Inr late \<and>
           status early = Contributing \<and> status middle = Reallocating \<and>
           status late = Tallying"
proof -
  from getRoundInfo_at_clock [OF assms(7,8), of "1000 * int (T + 60)"] assms(1-6)
  obtain early where e: "getRoundInfo (env\<lparr>localNow := 1000 * int (T + 60)\<rparr>) a = Inr early"
    "status early = Contributing"
    by (auto simp: roundAccounting_def Let_def fromSeconds_def MAX_DATE_def)
  from getRoundInfo_at_clock [OF assms(7,8), of "1000 * int (T + 120)"] assms(1-6)
  obtain middle where m: "getRoundInfo (env\<lparr>localNow := 1000 * int (T + 120)\<rparr>) a = Inr middle"
    "status middle = Reallocating"
    by (auto simp: roundAccounting_def Let_def fromSeconds_def MAX_DATE_def)
  from getRoundInfo_at_clock [OF assms(7,8), of "1000 * int (T + 200)"] assms(1-6)
  obtain late where l: "getRoundInfo (env\<lparr>localNow := 1000 * int (T + 200)\<rparr>) a = Inr late"
    "status late = Tallying"
    by (auto simp: roundAccounting_def Let_def fromSeconds_def MAX_DATE_def)
  from e m l show ?thesis by blast
qed

theorem getRoundInfo_status_scenario_witness:
  "status (projr (getRoundInfo (exampleLedger False False 1000 1060000) ''0xcD''))
     = Contributing \<and>
   status (projr (getRoundInfo (exampleLedger False False 1000 1120000) ''0xcD''))
     = Reallocating \<and>
   status (projr (getRoundInfo (exampleLedger False False 1000 1200000) ''0xcD''))
     = Tallying"
proof -
  let ?env = "exampleLedger False False 1000 0"
  have u: "?env\<lparr>localNow := 1000 * int (1000 + 60)\<rparr> = exampleLedger False False 1000 1060000"
      "?env\<lparr>localNow := 1000 * int (1000 + 120)\<rparr> = exampleLedger False False 1000 1120000"
      "?env\<lparr>localNow := 1000 * int (1000 + 200)\<rparr> = exampleLedger False False 1000 1200000"
    by (simp_all add: exampleLedger_def)
  have "\<exists>early middle late.
           getRoundInfo (?env\<lparr>localNow := 1000 * int (1000 + 60)\<rparr>) ''0xcD'' = Inr early \<and>
           getRoundInfo (?env\<lparr>localNow := 1000 * int (1000 + 120)\<rparr>) ''0xcD'' = Inr middle \<and>
           getRoundInfo (?env\<lparr>localNow := 1000 * int (1000 + 200)\<rparr>) ''0xcD'' = Inr late \<and>
           status early = Contributing \<and> status middle = Reallocating \<and>
           status late = Tallying"
    by (rule getRoundInfo_status_scenario
              [OF _ _ _ _ _ _ example_round_found example_round_converts])
       (simp_all add: exampleLedger_def exampleRound_def exampleMaci_def)
  then show ?thesis
    unfolding u by auto
qed

text \<open>
  The status at \<open>T + 60\<close> is not \<open>Reallocating\<close>: with \<open>T = 1000\<close> the call returns
  and the status is \<open>Contributing\<close>.
\<close>

theorem status_scenario_counterexample:
  "\<not> isl (getRoundInfo (exampleLedger False False 1000 (1000 * (1000 + 60))) ''0xcD'') \<and>
   status (projr (getRoundInfo (exampleLedger False False 1000 (1000 * (1000 + 60))) ''0xcD''))
     = Contributing \<and>
   status (projr (getRoundInfo (exampleLedger False False 1000 (1000 * (1000 + 60))) ''0xcD''))
     \<noteq> Reallocating"
  by (simp add: example_round_defs)

subsection \<open>Round number\<close>

text \<open>
  Claim C8. \<^verbatim>\<open>getRoundInfo\<close> fails with the round-not-found error exactly when the
  address, lower-cased, is not the lower-cased address of any \<^verbatim>\<open>RoundStarted\<close> event.
  When it occurs, with \<open>i\<close> its first position in emission order,
  \<^verbatim>\<open>getRoundNumber\<close> returns \<open>i\<close> plus the number of extra rounds, and that is the
  round number of every record \<^verbatim>\<open>getRoundInfo\<close> returns.
\<close>

theorem getRoundInfo_round_number:
  "(getRoundInfo env a = Inl RoundDoesNotExist \<longleftrightarrow>
      toLowerCase a \<notin> set (map toLowerCase (roundStartedEvents env))) \<and>
   (\<forall>i. i < length (roundStartedEvents env) \<and>
        toLowerCase (roundStartedEvents env ! i) = toLowerCase a \<and>
        (\<forall>j < i. toLowerCase (roundStartedEvents env ! j) \<noteq> toLowerCase a) \<longrightarrow>
        getRoundNumber env a = Inr (i + length (extraRounds env)) \<and>
        (\<forall>info. getRoundInfo env a = Inr info \<longrightarrow>
           roundNumber info = i + length (extraRounds env)))"
proof (intro conjI allI impI)
  show "getRoundInfo env a = Inl RoundDoesNotExist \<longleftrightarrow>
      toLowerCase a \<notin> set (map toLowerCase (roundStartedEvents env))"
  proof
    assume "getRoundInfo env a = Inl RoundDoesNotExist"
    from getRoundInfo_Inl [OF this] have "getRoundNumber env a = Inl RoundDoesNotExist"
      by simp
    then show "toLowerCase a \<notin> set (map toLowerCase (roundStartedEvents env))"
      by (simp add: getRoundNumber_absent)
  next
    assume "toLowerCase a \<notin> set (map toLowerCase (roundStartedEvents env))"
    then have "getRoundNumber env a = Inl RoundDoesNotExist"
      by (simp add: getRoundNumber_absent)
    then show "getRoundInfo env a = Inl RoundDoesNotExist"
      by (simp add: getRoundInfo_def)
  qed
next
  fix i
  assume h: "i < length (roundStartedEvents env) \<and>
        toLowerCase (roundStartedEvents env ! i) = toLowerCase a \<and>
        (\<forall>j < i. toLowerCase (roundStartedEvents env ! j) \<noteq> toLowerCase a)"
  then show n: "getRoundNumber env a = Inr (i + length (extraRounds env))"
    by (simp add: getRoundNumber_found)
  fix info
  assume "getRoundInfo env a = Inr info"
  from getRoundInfo_Inr(1) [OF this] n
  show "roundNumber info = i + length (extraRounds env)" by simp
qed

theorem getRoundInfo_round_number_witness:
  "getRoundInfo (exampleLedger False False 1000 0) ''0xEE'' = Inl RoundDoesNotExist \<and>
   getRoundNumber (exampleLedger False False 1000 0) ''0xcD'' = Inr 2 \<and>
   roundNumber (projr (getRoundInfo (exampleLedger False False 1000 0) ''0xcD'')) = 2"
proof -
  let ?env = "exampleLedger False False 1000 0"
  have absent: "toLowerCase ''0xEE'' \<notin> set (map toLowerCase (roundStartedEvents ?env))"
    by (simp add: exampleLedger_def toLowerCase_def lowerChar_def)
  have found: "1 < length (roundStartedEvents ?env) \<and>
        toLowerCase (roundStartedEvents ?env ! 1) = toLowerCase ''0xcD'' \<and>
        (\<forall>j < 1. toLowerCase (roundStartedEvents ?env ! j) \<noteq> toLowerCase ''0xcD'')"
    by (simp add: exampleLedger_def toLowerCase_def lowerChar_def)
  have ok: "getRoundInfo ?env ''0xcD'' = Inr (projr (getRoundInfo ?env ''0xcD''))"
    by (simp add: example_round_defs)
  have len: "length (extraRounds ?env) = 1"
    by (simp add: exampleLedger_def)
  have 1: "getRoundInfo ?env ''0xEE'' = Inl RoundDoesNotExist"
    using conjunct1 [OF getRoundInfo_round_number [of ?env "''0xEE''"]] absent by (rule iffD2)
  have 2: "getRoundNumber ?env ''0xcD'' = Inr (1 + length (extraRounds ?env)) \<and>
           (\<forall>info. getRoundInfo ?env ''0xcD'' = Inr info \<longrightarrow>
              roundNumber info = 1 + length (extraRounds ?env))"
    using conjunct2 [OF getRoundInfo_round_number [of ?env "''0xcD''"], THEN spec, of 1] found
    by (rule mp)
  then have 3: "roundNumber (projr (getRoundInfo ?env ''0xcD'')) = 1 + length (extraRounds ?env)"
    using ok by (elim conjE allE [of _ "projr (getRoundInfo ?env ''0xcD'')"]) (rule mp)
  from 1 2 3 len show ?thesis by simp
qed

subsection \<open>Approved funding\<close>

text \<open>
  Claim C4, as amended. \<^verbatim>\<open>getApprovedFunding\<close> returns the sum of the smaller of
  allowance (towards the factory) and balance with one term for every added event whose
  source has no removed event for the same address: a source that was added and removed
  contributes nothing, and a source with several added events and no removed event is
  counted once per event. The total is at most the sum of the balances and at most the
  sum of the allowances taken over the same events. The sources of these events are
  exactly the active sources, and when none of them was added twice the three sums are
  sums over the set of active sources.
\<close>

theorem getApprovedFunding_total:
  "getApprovedFunding env token =
     sum_list (map (sourceContribution env token) (countedSources env)) \<and>
   getApprovedFunding env token \<le>
     sum_list (map (erc20_balanceOf token) (countedSources env)) \<and>
   getApprovedFunding env token \<le>
     sum_list (map (sourceAllowance env token) (countedSources env)) \<and>
   set (countedSources env) = activeSources env \<and>
   (distinct (countedSources env) \<longrightarrow>
      getApprovedFunding env token = sum (sourceContribution env token) (activeSources env) \<and>
      getApprovedFunding env token \<le> sum (erc20_balanceOf token) (activeSources env) \<and>
      getApprovedFunding env token \<le> sum (sourceAllowance env token) (activeSources env))"
proof -
  have eq: "getApprovedFunding env token =
     sum_list (map (sourceContribution env token) (countedSources env))"
  proof -
    have "sourceContribution env token =
            (\<lambda>source. min (erc20_allowance token source (factoryAddress env))
                           (erc20_balanceOf token source))"
      by (rule ext) (simp add: sourceContribution_def sourceAllowance_def)
    then show ?thesis
      by (simp add: getApprovedFunding_def countedSources_def approvedFundingLoop_sum)
  qed
  have le_b: "sum_list (map (sourceContribution env token) (countedSources env)) \<le>
      sum_list (map (erc20_balanceOf token) (countedSources env))"
    unfolding sourceContribution_def by (rule sum_list_min_le(2))
  have le_a: "sum_list (map (sourceContribution env token) (countedSources env)) \<le>
      sum_list (map (sourceAllowance env token) (countedSources env))"
    unfolding sourceContribution_def by (rule sum_list_min_le(1))
  have s: "set (countedSources env) = activeSources env"
    by (auto simp: countedSources_def activeSources_def)
  have conv: "sum_list (map f (countedSources env)) = sum f (activeSources env)"
    if "distinct (countedSources env)" for f :: "address \<Rightarrow> nat"
    using that by (simp add: sum_list_distinct_conv_sum_set s)
  have set_form: "distinct (countedSources env) \<longrightarrow>
      getApprovedFunding env token = sum (sourceContribution env token) (activeSources env) \<and>
      getApprovedFunding env token \<le> sum (erc20_balanceOf token) (activeSources env) \<and>
      getApprovedFunding env token \<le> sum (sourceAllowance env token) (activeSources env)"
  proof
    assume d: "distinct (countedSources env)"
    from le_a le_b show "getApprovedFunding env token =
          sum (sourceContribution env token) (activeSources env) \<and>
        getApprovedFunding env token \<le> sum (erc20_balanceOf token) (activeSources env) \<and>
        getApprovedFunding env token \<le> sum (sourceAllowance env token) (activeSources env)"
      unfolding eq conv [OF d] by simp
  qed
  have b1: "getApprovedFunding env token \<le>
      sum_list (map (erc20_balanceOf token) (countedSources env))"
    using le_b unfolding eq .
  have a1: "getApprovedFunding env token \<le>
      sum_list (map (sourceAllowance env token) (countedSources env))"
    using le_a unfolding eq .
  show ?thesis
    by (rule conjI [OF eq conjI [OF b1 conjI [OF a1 conjI [OF s set_form]]]])
qed

theorem getApprovedFunding_total_witness:
  "distinct (countedSources (exampleLedger False False 1000 0)) \<and>
   activeSources (exampleLedger False False 1000 0) = {''0xB''} \<and>
   getApprovedFunding (exampleLedger False False 1000 0) exampleToken = 5"
proof -
  let ?env = "exampleLedger False False 1000 0"
  have d: "distinct (countedSources ?env)"
    by (simp add: countedSources_def exampleLedger_def)
  have a: "activeSources ?env = {''0xB''}"
    by (auto simp: activeSources_def exampleLedger_def)
  from getApprovedFunding_total [of ?env exampleToken] d
  have "getApprovedFunding ?env exampleToken =
          sum (sourceContribution ?env exampleToken) (activeSources ?env)"
    by simp
  then have "getApprovedFunding ?env exampleToken = 5"
    unfolding a
    by (simp add: sourceContribution_def sourceAllowance_def exampleToken_def exampleLedger_def)
  with d a show ?thesis by simp
qed

text \<open>
  A source added twice and never removed is counted twice: the total is 10, while over
  the set of active sources the contributions sum to 5, the balances to 5 and the
  allowances to 8.
\<close>

theorem getApprovedFunding_total_counterexample:
  "getApprovedFunding
     (exampleLedger False False 1000 0
        \<lparr>fundingSourceAddedEvents := [''0xB'', ''0xB''], fundingSourceRemovedEvents := []\<rparr>)
     exampleToken = 10 \<and>
   activeSources
     (exampleLedger False False 1000 0
        \<lparr>fundingSourceAddedEvents := [''0xB'', ''0xB''], fundingSourceRemovedEvents := []\<rparr>)
     = {''0xB''} \<and>
   sum (sourceContribution
          (exampleLedger False False 1000 0
             \<lparr>fundingSourceAddedEvents := [''0xB'', ''0xB''], fundingSourceRemovedEvents := []\<rparr>)
          exampleToken)
     (activeSources
        (exampleLedger False False 1000 0
           \<lparr>fundingSourceAddedEvents := [''0xB'', ''0xB''], fundingSourceRemovedEvents := []\<rparr>))
     = 5 \<and>
   sum (erc20_balanceOf exampleToken)
     (activeSources
        (exampleLedger False False 1000 0
           \<lparr>fundingSourceAddedEvents := [''0xB'', ''0xB''], fundingSourceRemovedEvents := []\<rparr>))
     = 5 \<and>
   sum (sourceAllowance
          (exampleLedger False False 1000 0
             \<lparr>fundingSourceAddedEvents := [''0xB'', ''0xB''], fundingSourceRemovedEvents := []\<rparr>)
          exampleToken)
     (activeSources
        (exampleLedger False False 1000 0
           \<lparr>fundingSourceAddedEvents := [''0xB'', ''0xB''], fundingSourceRemovedEvents := []\<rparr>))
     = 8"
proof -
  let ?env = "exampleLedger False False 1000 0
        \<lparr>fundingSourceAddedEvents := [''0xB'', ''0xB''], fundingSourceRemovedEvents := []\<rparr>"
  have a: "activeSources ?env = {''0xB''}"
    by (auto simp: activeSources_def exampleLedger_def)
  have t: "getApprovedFunding ?env exampleToken = 10"
    by (simp add: getApprovedFunding_def exampleLedger_def exampleToken_def Let_def)
  show ?thesis
    unfolding a t
    by (simp add: sourceContribution_def sourceAllowance_def exampleLedger_def exampleToken_def)
qed

section \<open>Properties of the registry reconciliation\<close>

subsection \<open>Auxiliary facts\<close>

lemmas example_registry_defs =
  getProjects_def getProject_def getTcrColumns_def addedProject_def decodeRecipientAdded_def
  decodeTcrItemData_def at_def interpolate_def truthy_def toNumber_def MAX_SAFE_INTEGER_def
  exampleRegistryLedger_def exampleTcr_def exampleDecoder_def failingDecoder_def
  addedEvent_def removedEvent_def KLEROS_CURATE_URL_def Let_def

lemma decodeRecipientAdded_Inr:
  assumes "decodeRecipientAdded env ev cols = Inr p"
  shows "id' p = added_tcrItemId ev \<and> extra p = None \<and> \<not> isHidden p \<and> \<not> isLocked p \<and>
         index p = added_index ev \<and>
         (\<exists>vs. gtcrDecode env cols (added_metadata ev) = Inr vs \<and>
               address p = at vs 1 \<and> name p = at vs 0 \<and> description p = at vs 3 \<and>
               imageUrl p = ipfsGatewayUrl env @ interpolate (at vs 2))"
  using assms
  by (auto simp: decodeRecipientAdded_def decodeTcrItemData_def
           split: sum.splits dest!: toNumber_Inr)

lemma addedProject_Inr:
  assumes "addedProject env cols removed sb eb ev = Inr p"
  shows "id' p = added_tcrItemId ev"
    and "extra p = None"
    and "index p = added_index ev"
    and "\<exists>vs. gtcrDecode env cols (added_metadata ev) = Inr vs \<and>
               address p = at vs 1 \<and> name p = at vs 0 \<and> description p = at vs 3 \<and>
               imageUrl p = ipfsGatewayUrl env @ interpolate (at vs 2)"
    and "isHidden p \<longleftrightarrow>
           (\<exists>e. eb = Some e \<and> e \<noteq> 0 \<and> e \<le> added_blockNumber ev) \<or>
           (\<exists>r. find (\<lambda>x. removed_tcrItemId x = added_tcrItemId ev) removed = Some r \<and>
                (sb = None \<or> sb = Some 0 \<or> (\<exists>s. sb = Some s \<and> removed_blockNumber r \<le> s)))"
    and "isLocked p \<longleftrightarrow>
           (\<exists>r. find (\<lambda>x. removed_tcrItemId x = added_tcrItemId ev) removed = Some r \<and>
                (\<exists>s. sb = Some s \<and> s \<noteq> 0 \<and> s < removed_blockNumber r))"
proof -
  from assms obtain q where q: "decodeRecipientAdded env ev cols = Inr q"
    by (auto simp: addedProject_def split: sum.splits)
  note dq = decodeRecipientAdded_Inr [OF q]
  from assms q dq show "id' p = added_tcrItemId ev"
    by (auto simp: addedProject_def Let_def split: option.splits if_splits)
  from assms q dq show "extra p = None"
    by (auto simp: addedProject_def Let_def split: option.splits if_splits)
  from assms q dq show "index p = added_index ev"
    by (auto simp: addedProject_def Let_def split: option.splits if_splits)
  from assms q dq show "\<exists>vs. gtcrDecode env cols (added_metadata ev) = Inr vs \<and>
               address p = at vs 1 \<and> name p = at vs 0 \<and> description p = at vs 3 \<and>
               imageUrl p = ipfsGatewayUrl env @ interpolate (at vs 2)"
    by (auto simp: addedProject_def Let_def split: option.splits if_splits)
  from assms q dq show "isHidden p \<longleftrightarrow>
           (\<exists>e. eb = Some e \<and> e \<noteq> 0 \<and> e \<le> added_blockNumber ev) \<or>
           (\<exists>r. find (\<lambda>x. removed_tcrItemId x = added_tcrItemId ev) removed = Some r \<and>
                (sb = None \<or> sb = Some 0 \<or> (\<exists>s. sb = Some s \<and> removed_blockNumber r \<le> s)))"
    by (auto simp: addedProject_def Let_def truthy_def split: option.splits if_splits)
  from assms q dq show "isLocked p \<longleftrightarrow>
           (\<exists>r. find (\<lambda>x. removed_tcrItemId x = added_tcrItemId ev) removed = Some r \<and>
                (\<exists>s. sb = Some s \<and> s \<noteq> 0 \<and> s < removed_blockNumber r))"
    by (auto simp: addedProject_def Let_def truthy_def split: option.splits if_splits)
qed

lemma recipientAddedLoop_Inr:
  "recipientAddedLoop env cols removed sb eb evs acc = Inr ps \<Longrightarrow>
   \<exists>qs. ps = acc @ qs \<and>
        list_all2 (\<lambda>ev q. addedProject env cols removed sb eb ev = Inr q) evs qs"
proof (induction evs arbitrary: acc)
  case Nil
  then show ?case by simp
next
  case (Cons ev evs)
  from Cons.prems obtain q where q: "addedProject env cols removed sb eb ev = Inr q"
    and rest: "recipientAddedLoop env cols removed sb eb evs (acc @ [q]) = Inr ps"
    by (auto split: sum.splits)
  from Cons.IH [OF rest] obtain qs where "ps = (acc @ [q]) @ qs"
    and "list_all2 (\<lambda>ev q. addedProject env cols removed sb eb ev = Inr q) evs qs"
    by blast
  with q have "ps = acc @ (q # qs) \<and>
      list_all2 (\<lambda>ev q. addedProject env cols removed sb eb ev = Inr q) (ev # evs) (q # qs)"
    by simp
  then show ?case by blast
qed

lemma find_id_None: "find (\<lambda>item. id' item = i) ps = None \<longleftrightarrow> i \<notin> set (map id' ps)"
  by (auto simp: find_None_iff)

lemma itemSubmittedLoop_Inr:
  "itemSubmittedLoop env tcr cols ids acc = Inr ps \<Longrightarrow>
   \<exists>qs. ps = acc @ qs \<and> distinct (map id' qs) \<and>
        set (map id' qs) \<inter> set (map id' acc) = {} \<and>
        (\<forall>q \<in> set qs. index q = 0 \<and> \<not> isHidden q \<and> \<not> isLocked q \<and> extra q \<noteq> None \<and>
                       id' q \<in> set ids)"
proof (induction ids arbitrary: acc)
  case Nil
  then show ?case by simp
next
  case (Cons i ids)
  let ?P = "\<lambda>acc qs. ps = acc @ qs \<and> distinct (map id' qs) \<and>
        set (map id' qs) \<inter> set (map id' acc) = {} \<and>
        (\<forall>q \<in> set qs. index q = 0 \<and> \<not> isHidden q \<and> \<not> isLocked q \<and> extra q \<noteq> None \<and>
                       id' q \<in> set (i # ids))"
  consider (skip) "itemSubmittedLoop env tcr cols ids acc = Inr ps"
    | (push) q where "itemSubmittedLoop env tcr cols ids (acc @ [q]) = Inr ps"
        "id' q = i" "i \<notin> set (map id' acc)"
        "index q = 0" "\<not> isHidden q" "\<not> isLocked q" "extra q \<noteq> None"
    using Cons.prems
    by (auto simp: find_id_None split: option.splits sum.splits prod.splits if_splits)
  then show ?case
  proof cases
    case skip
    from Cons.IH [OF skip] obtain qs where "?P acc qs"
      by auto
    then show ?thesis by blast
  next
    case push
    from Cons.IH [OF push(1)] obtain qs where qs: "ps = (acc @ [q]) @ qs"
      "distinct (map id' qs)" "set (map id' qs) \<inter> set (map id' (acc @ [q])) = {}"
      "\<forall>q \<in> set qs. index q = 0 \<and> \<not> isHidden q \<and> \<not> isLocked q \<and> extra q \<noteq> None \<and>
                       id' q \<in> set ids"
      by blast
    have "?P acc (q # qs)"
      using qs push(2-) by auto
    then show ?thesis by blast
  qed
qed

lemma getProjects_Inr:
  assumes "getProjects env ra sb eb = Inr ps"
  shows "\<exists>cols qs1 qs2.
           getTcrColumns env (tcrAt env (reg_tcr (registryAt env ra))) = Inr cols \<and>
           ps = qs1 @ qs2 \<and>
           list_all2 (\<lambda>ev q. addedProject env cols (reg_recipientRemovedEvents (registryAt env ra))
                               sb eb ev = Inr q)
             (reg_recipientAddedEvents (registryAt env ra)) qs1 \<and>
           distinct (map id' qs2) \<and>
           set (map id' qs2) \<inter> set (map id' qs1) = {} \<and>
           (\<forall>q \<in> set qs2. index q = 0 \<and> \<not> isHidden q \<and> \<not> isLocked q \<and> extra q \<noteq> None \<and>
              id' q \<in> set (tcr_itemSubmittedEvents (tcrAt env (reg_tcr (registryAt env ra)))))"
proof -
  let ?reg = "registryAt env ra"
  let ?tcr = "tcrAt env (reg_tcr ?reg)"
  from assms obtain cols qs1 where cols: "getTcrColumns env ?tcr = Inr cols"
    and l1: "recipientAddedLoop env cols (reg_recipientRemovedEvents ?reg) sb eb
               (reg_recipientAddedEvents ?reg) [] = Inr qs1"
    and l2: "itemSubmittedLoop env ?tcr cols (tcr_itemSubmittedEvents ?tcr) qs1 = Inr ps"
    by (auto simp: getProjects_def Let_def split: sum.splits)
  from recipientAddedLoop_Inr [OF l1]
  have a: "list_all2 (\<lambda>ev q. addedProject env cols (reg_recipientRemovedEvents ?reg)
                               sb eb ev = Inr q) (reg_recipientAddedEvents ?reg) qs1"
    by simp
  from itemSubmittedLoop_Inr [OF l2] cols a show ?thesis
    by blast
qed

lemma added_ids:
  assumes "list_all2 (\<lambda>ev q. addedProject env cols removed sb eb ev = Inr q) evs qs"
  shows "map id' qs = map added_tcrItemId evs"
  using assms
  by (induction evs qs rule: list_all2_induct) (auto dest: addedProject_Inr(1))

lemma getProjects_nth:
  assumes "getProjects env ra sb eb = Inr ps"
    and "n < length (reg_recipientAddedEvents (registryAt env ra))"
  shows "\<exists>cols. getTcrColumns env (tcrAt env (reg_tcr (registryAt env ra))) = Inr cols \<and>
           addedProject env cols (reg_recipientRemovedEvents (registryAt env ra)) sb eb
             (reg_recipientAddedEvents (registryAt env ra) ! n) = Inr (ps ! n)"
proof -
  from getProjects_Inr [OF assms(1)] obtain cols qs1 qs2 where
    cols: "getTcrColumns env (tcrAt env (reg_tcr (registryAt env ra))) = Inr cols"
    and ps: "ps = qs1 @ qs2"
    and a: "list_all2 (\<lambda>ev q. addedProject env cols
                (reg_recipientRemovedEvents (registryAt env ra)) sb eb ev = Inr q)
             (reg_recipientAddedEvents (registryAt env ra)) qs1"
    by blast
  from a assms(2) have "n < length qs1"
    by (simp add: list_all2_lengthD)
  then have "ps ! n = qs1 ! n"
    by (simp add: ps nth_append)
  with list_all2_nthD [OF a assms(2)] cols show ?thesis
    by auto
qed

lemma distinct_count_list_le: "distinct xs \<Longrightarrow> count_list xs x \<le> 1"
  by (induction xs) auto

lemma count_list_absent: "x \<notin> set xs \<Longrightarrow> count_list xs x = 0"
  by (induction xs) auto

lemma itemSubmittedLoop_ids_only:
  "map id' acc = map id' acc' \<Longrightarrow>
   itemSubmittedLoop env tcr cols ids acc = Inr ps \<Longrightarrow>
   itemSubmittedLoop env tcr cols ids acc' = Inr ps' \<Longrightarrow>
   drop (length acc) ps = drop (length acc') ps'"
proof (induction ids arbitrary: acc acc')
  case Nil
  then show ?case by simp
next
  case (Cons i ids)
  have same: "find (\<lambda>item. id' item = i) acc = None \<longleftrightarrow> find (\<lambda>item. id' item = i) acc' = None"
    using Cons.prems(1) by (simp add: find_id_None)
  consider (skip) "itemSubmittedLoop env tcr cols ids acc = Inr ps"
        "itemSubmittedLoop env tcr cols ids acc' = Inr ps'"
    | (push) q where "itemSubmittedLoop env tcr cols ids (acc @ [q]) = Inr ps"
        "itemSubmittedLoop env tcr cols ids (acc' @ [q]) = Inr ps'"
    using Cons.prems(2,3) same
    by (auto split: option.splits sum.splits prod.splits if_splits)
  then show ?case
  proof cases
    case skip
    from Cons.IH [OF Cons.prems(1) skip] show ?thesis .
  next
    case push
    have "map id' (acc @ [q]) = map id' (acc' @ [q])"
      using Cons.prems(1) by simp
    from Cons.IH [OF this push]
    have d: "drop (Suc (length acc)) ps = drop (Suc (length acc')) ps'"
      by simp
    from itemSubmittedLoop_Inr [OF push(1)] obtain qs where ps: "ps = (acc @ [q]) @ qs"
      by blast
    from itemSubmittedLoop_Inr [OF push(2)] obtain qs' where ps': "ps' = (acc' @ [q]) @ qs'"
      by blast
    from d have "qs = qs'"
      by (simp add: ps ps')
    then show ?thesis
      by (simp add: ps ps')
  qed
qed

lemma getProjects_window_independent:
  assumes "getProjects env ra sb eb = Inr ps"
    and "getProjects env ra sb' eb' = Inr ps'"
  shows "drop (length (reg_recipientAddedEvents (registryAt env ra))) ps' =
         drop (length (reg_recipientAddedEvents (registryAt env ra))) ps"
proof -
  let ?reg = "registryAt env ra"
  let ?tcr = "tcrAt env (reg_tcr ?reg)"
  from assms(1) obtain cols qs1 where cols: "getTcrColumns env ?tcr = Inr cols"
    and l1: "recipientAddedLoop env cols (reg_recipientRemovedEvents ?reg) sb eb
               (reg_recipientAddedEvents ?reg) [] = Inr qs1"
    and l2: "itemSubmittedLoop env ?tcr cols (tcr_itemSubmittedEvents ?tcr) qs1 = Inr ps"
    by (auto simp: getProjects_def Let_def split: sum.splits)
  from assms(2) cols obtain qs1' where
    l1': "recipientAddedLoop env cols (reg_recipientRemovedEvents ?reg) sb' eb'
               (reg_recipientAddedEvents ?reg) [] = Inr qs1'"
    and l2': "itemSubmittedLoop env ?tcr cols (tcr_itemSubmittedEvents ?tcr) qs1' = Inr ps'"
    by (auto simp: getProjects_def Let_def split: sum.splits)
  from recipientAddedLoop_Inr [OF l1]
  have a: "list_all2 (\<lambda>ev q. addedProject env cols (reg_recipientRemovedEvents ?reg)
                               sb eb ev = Inr q) (reg_recipientAddedEvents ?reg) qs1"
    by simp
  from recipientAddedLoop_Inr [OF l1']
  have a': "list_all2 (\<lambda>ev q. addedProject env cols (reg_recipientRemovedEvents ?reg)
                               sb' eb' ev = Inr q) (reg_recipientAddedEvents ?reg) qs1'"
    by simp
  have ids: "map id' qs1' = map id' qs1"
    using added_ids [OF a] added_ids [OF a'] by simp
  have len: "length qs1 = length (reg_recipientAddedEvents ?reg)"
      "length qs1' = length (reg_recipientAddedEvents ?reg)"
    using list_all2_lengthD [OF a] list_all2_lengthD [OF a'] by simp_all
  from itemSubmittedLoop_ids_only [OF ids l2' l2] len show ?thesis
    by simp
qed

lemma filter_hd_find: "filter P xs = y # ys \<Longrightarrow> find P xs = Some y"
  by (induction xs) (auto split: if_splits)

lemma find_filter_hd: "find P xs = Some y \<Longrightarrow> \<exists>ys. filter P xs = y # ys"
  by (induction xs) (auto split: if_splits)

lemma filter_Nil_find: "filter P xs = [] \<longleftrightarrow> find P xs = None"
  by (induction xs) auto

lemma getProject_null:
  "getProject env ra rid = Inr None \<longleftrightarrow>
     (\<exists>cols. getTcrColumns env (tcrAt env (reg_tcr (registryAt env ra))) = Inr cols) \<and>
     fst (tcr_getItemInfo (tcrAt env (reg_tcr (registryAt env ra))) rid) = ''0x''"
  by (cases "tcr_getItemInfo (tcrAt env (reg_tcr (registryAt env ra))) rid")
     (auto simp: getProject_def Let_def split: sum.splits if_splits list.splits)

lemma getProject_Some:
  assumes "getProject env ra rid = Inr (Some p)"
  shows "fst (tcr_getItemInfo (tcrAt env (reg_tcr (registryAt env ra))) rid) \<noteq> ''0x''"
    and "id' p = rid"
    and "\<not> isHidden p"
    and "isLocked p \<longleftrightarrow>
           (\<exists>x \<in> set (reg_recipientRemovedEvents (registryAt env ra)).
              removed_tcrItemId x = rid)"
    and "\<exists>cols vs. getTcrColumns env (tcrAt env (reg_tcr (registryAt env ra))) = Inr cols \<and>
           gtcrDecode env cols
             (fst (tcr_getItemInfo (tcrAt env (reg_tcr (registryAt env ra))) rid)) = Inr vs"
    and "snd (tcr_getItemInfo (tcrAt env (reg_tcr (registryAt env ra))) rid)
           \<le> MAX_SAFE_INTEGER"
    and "\<forall>ev. find (\<lambda>ev. added_tcrItemId ev = rid)
                (reg_recipientAddedEvents (registryAt env ra)) = Some ev \<longrightarrow>
              added_index ev \<le> MAX_SAFE_INTEGER"
proof -
  obtain d st where i: "tcr_getItemInfo (tcrAt env (reg_tcr (registryAt env ra))) rid = (d, st)"
    by (cases "tcr_getItemInfo (tcrAt env (reg_tcr (registryAt env ra))) rid")
  from assms i show "fst (tcr_getItemInfo (tcrAt env (reg_tcr (registryAt env ra))) rid) \<noteq> ''0x''"
    by (auto simp: getProject_def Let_def split: sum.splits if_splits list.splits)
  from assms i show "id' p = rid"
    by (auto simp: getProject_def Let_def split: sum.splits if_splits list.splits)
  from assms i show "\<not> isHidden p"
    by (auto simp: getProject_def Let_def split: sum.splits if_splits list.splits)
  from assms i show "isLocked p \<longleftrightarrow>
           (\<exists>x \<in> set (reg_recipientRemovedEvents (registryAt env ra)).
              removed_tcrItemId x = rid)"
    by (auto simp: getProject_def Let_def filter_empty_conv
             split: sum.splits if_splits list.splits)
  from assms i show "\<exists>cols vs.
           getTcrColumns env (tcrAt env (reg_tcr (registryAt env ra))) = Inr cols \<and>
           gtcrDecode env cols
             (fst (tcr_getItemInfo (tcrAt env (reg_tcr (registryAt env ra))) rid)) = Inr vs"
    by (auto simp: getProject_def Let_def decodeTcrItemData_def
             split: sum.splits if_splits list.splits)
  from assms i show "snd (tcr_getItemInfo (tcrAt env (reg_tcr (registryAt env ra))) rid)
           \<le> MAX_SAFE_INTEGER"
    by (auto simp: getProject_def Let_def split: sum.splits if_splits list.splits
             dest!: toNumber_Inr)
  from assms i show "\<forall>ev. find (\<lambda>ev. added_tcrItemId ev = rid)
                (reg_recipientAddedEvents (registryAt env ra)) = Some ev \<longrightarrow>
              added_index ev \<le> MAX_SAFE_INTEGER"
    by (auto simp: getProject_def Let_def filter_Nil_find
             split: sum.splits if_splits list.splits
             dest!: toNumber_Inr filter_hd_find)
qed

lemma getProject_returns:
  assumes cols: "getTcrColumns env (tcrAt env (reg_tcr (registryAt env ra))) = Inr cols"
    and data: "fst (tcr_getItemInfo (tcrAt env (reg_tcr (registryAt env ra))) rid) \<noteq> ''0x''"
    and dec: "\<not> isl (gtcrDecode env cols
                 (fst (tcr_getItemInfo (tcrAt env (reg_tcr (registryAt env ra))) rid)))"
    and st: "snd (tcr_getItemInfo (tcrAt env (reg_tcr (registryAt env ra))) rid)
               \<le> MAX_SAFE_INTEGER"
    and ix: "\<forall>ev. find (\<lambda>ev. added_tcrItemId ev = rid)
                (reg_recipientAddedEvents (registryAt env ra)) = Some ev \<longrightarrow>
              added_index ev \<le> MAX_SAFE_INTEGER"
  shows "\<exists>p. getProject env ra rid = Inr (Some p)"
proof -
  obtain d s where i: "tcr_getItemInfo (tcrAt env (reg_tcr (registryAt env ra))) rid = (d, s)"
    by (cases "tcr_getItemInfo (tcrAt env (reg_tcr (registryAt env ra))) rid")
  from dec i obtain vs where vs: "gtcrDecode env cols d = Inr vs"
    by (cases "gtcrDecode env cols d") auto
  show ?thesis
  proof (cases "filter (\<lambda>ev. added_tcrItemId ev = rid)
                  (reg_recipientAddedEvents (registryAt env ra))")
    case Nil
    with cols data st i vs show ?thesis
      by (simp add: getProject_def Let_def decodeTcrItemData_def toNumber_def)
  next
    case (Cons ev evs)
    from filter_hd_find [OF Cons] ix have "added_index ev \<le> MAX_SAFE_INTEGER"
      by simp
    with Cons cols data st i vs show ?thesis
      by (simp add: getProject_def Let_def decodeTcrItemData_def toNumber_def)
  qed
qed

lemma addedProject_returns:
  "\<not> isl (addedProject env cols removed sb eb ev) \<longleftrightarrow>
   \<not> isl (gtcrDecode env cols (added_metadata ev)) \<and> added_index ev \<le> MAX_SAFE_INTEGER"
  by (auto simp: addedProject_def decodeRecipientAdded_def decodeTcrItemData_def toNumber_def
                 Let_def
           split: sum.splits option.splits)

lemma recipientAddedLoop_returns:
  "\<not> isl (recipientAddedLoop env cols removed sb eb evs acc) \<longleftrightarrow>
   (\<forall>ev \<in> set evs. \<not> isl (gtcrDecode env cols (added_metadata ev)) \<and>
                    added_index ev \<le> MAX_SAFE_INTEGER)"
proof (induction evs arbitrary: acc)
  case Nil
  then show ?case by simp
next
  case (Cons x evs)
  show ?case
  proof (cases "addedProject env cols removed sb eb x")
    case (Inl e)
    then have "isl (addedProject env cols removed sb eb x)" by simp
    with Inl show ?thesis
      using addedProject_returns [of env cols removed sb eb x] by auto
  next
    case (Inr q)
    then have "\<not> isl (addedProject env cols removed sb eb x)" by simp
    with Inr Cons.IH [of "acc @ [q]"] show ?thesis
      using addedProject_returns [of env cols removed sb eb x] by auto
  qed
qed

lemma itemSubmittedLoop_returns:
  "\<not> isl (itemSubmittedLoop env tcr cols ids acc) \<longleftrightarrow>
   (\<forall>i \<in> set ids. i \<notin> set (map id' acc) \<longrightarrow>
      snd (tcr_getItemInfo tcr i) \<le> MAX_SAFE_INTEGER \<and>
      (snd (tcr_getItemInfo tcr i) = statusValue Registered \<longrightarrow>
         \<not> isl (gtcrDecode env cols (fst (tcr_getItemInfo tcr i)))))"
proof (induction ids arbitrary: acc)
  case Nil
  then show ?case by simp
next
  case (Cons i ids)
  let ?C = "\<lambda>j. snd (tcr_getItemInfo tcr j) \<le> MAX_SAFE_INTEGER \<and>
      (snd (tcr_getItemInfo tcr j) = statusValue Registered \<longrightarrow>
         \<not> isl (gtcrDecode env cols (fst (tcr_getItemInfo tcr j))))"
  obtain d s where info: "tcr_getItemInfo tcr i = (d, s)"
    by (cases "tcr_getItemInfo tcr i")
  show ?case
  proof (cases "i \<in> set (map id' acc)")
    case True
    then obtain r where "find (\<lambda>item. id' item = i) acc = Some r"
      using find_id_None [of i acc] by (cases "find (\<lambda>item. id' item = i) acc") auto
    then have "itemSubmittedLoop env tcr cols (i # ids) acc =
                 itemSubmittedLoop env tcr cols ids acc"
      by simp
    with True Cons.IH [of acc] show ?thesis by auto
  next
    case False
    then have none: "find (\<lambda>item. id' item = i) acc = None"
      by (simp add: find_id_None)
    show ?thesis
    proof (cases "?C i")
      case False
      then have "isl (itemSubmittedLoop env tcr cols (i # ids) acc)"
        using none info
        by (auto simp: toNumber_def decodeTcrItemData_def split: sum.splits)
      with False \<open>i \<notin> set (map id' acc)\<close> show ?thesis by auto
    next
      case True
      show ?thesis
      proof (cases "s = statusValue Registered")
        case False
        then have "itemSubmittedLoop env tcr cols (i # ids) acc =
                     itemSubmittedLoop env tcr cols ids acc"
          using none info True by (simp add: toNumber_def)
        with True Cons.IH [of acc] show ?thesis by auto
      next
        case reg: True
        with True info obtain vs where vs: "gtcrDecode env cols d = Inr vs"
          by (cases "gtcrDecode env cols d") auto
        let ?q = "\<lparr> id' = i, address = at vs 1, name = at vs 0, description = at vs 3,
                    imageUrl = ipfsGatewayUrl env @ interpolate (at vs 2), index = 0,
                    isHidden = False, isLocked = False,
                    extra = Some \<lparr> tcrItemStatus = statusValue Registered,
                                   tcrItemUrl = KLEROS_CURATE_URL @ ''/'' @ i \<rparr> \<rparr>"
        have "id' ?q = i \<and>
              itemSubmittedLoop env tcr cols (i # ids) acc =
                itemSubmittedLoop env tcr cols ids (acc @ [?q])"
          using vs none info True reg
          by (simp add: toNumber_def decodeTcrItemData_def)
        then obtain q where q: "id' q = i"
          and step: "itemSubmittedLoop env tcr cols (i # ids) acc =
                       itemSubmittedLoop env tcr cols ids (acc @ [q])"
          by blast
        have "(\<forall>j \<in> set ids. j \<notin> set (map id' (acc @ [q])) \<longrightarrow> ?C j) \<longleftrightarrow>
              (\<forall>j \<in> set (i # ids). j \<notin> set (map id' acc) \<longrightarrow> ?C j)"
          using True q by auto
        with Cons.IH [of "acc @ [q]"] step show ?thesis by simp
      qed
    qed
  qed
qed

subsection \<open>Identifiers in the reconciled list\<close>

text \<open>
  Claim C2, as amended. In the list \<^verbatim>\<open>getProjects\<close> returns, an id with recipient-added
  events occurs once per such event, and an id without any occurs at most once, however
  often it was submitted to the curated list. So the ids of the list are pairwise
  different whenever no two recipient-added events carry the same id.
\<close>

theorem getProjects_ids:
  assumes "getProjects env ra sb eb = Inr ps"
  shows "(\<forall>i \<in> set (map added_tcrItemId (reg_recipientAddedEvents (registryAt env ra))).
            count_list (map id' ps) i =
            count_list (map added_tcrItemId (reg_recipientAddedEvents (registryAt env ra))) i) \<and>
         (\<forall>i. i \<notin> set (map added_tcrItemId (reg_recipientAddedEvents (registryAt env ra)))
            \<longrightarrow> count_list (map id' ps) i \<le> 1) \<and>
         (distinct (map added_tcrItemId (reg_recipientAddedEvents (registryAt env ra)))
            \<longrightarrow> distinct (map id' ps))"
proof -
  let ?ids = "map added_tcrItemId (reg_recipientAddedEvents (registryAt env ra))"
  from getProjects_Inr [OF assms] obtain cols qs1 qs2 where
    ps: "ps = qs1 @ qs2"
    and a: "list_all2 (\<lambda>ev q. addedProject env cols
                (reg_recipientRemovedEvents (registryAt env ra)) sb eb ev = Inr q)
             (reg_recipientAddedEvents (registryAt env ra)) qs1"
    and d: "distinct (map id' qs2)"
    and disj: "set (map id' qs2) \<inter> set (map id' qs1) = {}"
    by blast
  have ids: "map id' qs1 = ?ids"
    using added_ids [OF a] .
  have c: "count_list (map id' ps) i = count_list ?ids i + count_list (map id' qs2) i" for i
    by (simp add: ps ids)
  have 1: "\<forall>i \<in> set ?ids. count_list (map id' ps) i = count_list ?ids i"
  proof
    fix i assume "i \<in> set ?ids"
    with disj ids have "i \<notin> set (map id' qs2)" by auto
    then show "count_list (map id' ps) i = count_list ?ids i"
      by (simp add: c count_list_absent)
  qed
  have 2: "\<forall>i. i \<notin> set ?ids \<longrightarrow> count_list (map id' ps) i \<le> 1"
    using distinct_count_list_le [OF d] by (simp add: c count_list_absent)
  have 3: "distinct ?ids \<longrightarrow> distinct (map id' ps)"
    using d disj ids by (auto simp: ps)
  from 1 2 3 show ?thesis by blast
qed

theorem getProjects_ids_witness:
  "distinct (map added_tcrItemId (reg_recipientAddedEvents (registryAt
      (exampleRegistryLedger exampleDecoder [addedEvent 20 ''0x05'' 2] [removedEvent 40 ''0x05'']
         [''0x09'', ''0x05'', ''0x07'', ''0x09'']) ''0xR1''))) \<and>
   distinct (map id' (projr (getProjects
      (exampleRegistryLedger exampleDecoder [addedEvent 20 ''0x05'' 2] [removedEvent 40 ''0x05'']
         [''0x09'', ''0x05'', ''0x07'', ''0x09'']) ''0xR1'' (Some 50) (Some 200))))"
proof -
  let ?env = "exampleRegistryLedger exampleDecoder [addedEvent 20 ''0x05'' 2]
                [removedEvent 40 ''0x05''] [''0x09'', ''0x05'', ''0x07'', ''0x09'']"
  have ok: "getProjects ?env ''0xR1'' (Some 50) (Some 200) =
              Inr (projr (getProjects ?env ''0xR1'' (Some 50) (Some 200)))"
    by (simp add: example_registry_defs)
  have d: "distinct (map added_tcrItemId (reg_recipientAddedEvents (registryAt ?env ''0xR1'')))"
    by (simp add: exampleRegistryLedger_def)
  from getProjects_ids [OF ok] d show ?thesis by blast
qed

text \<open>
  Two recipient-added events for the same id give two entries with that id: the first
  loop pushes one project per event and never looks at the list built so far.
\<close>

theorem getProjects_ids_counterexample:
  "\<not> isl (getProjects
      (exampleRegistryLedger exampleDecoder [addedEvent 20 ''0x05'' 2, addedEvent 30 ''0x05'' 3]
         [] []) ''0xR1'' None None) \<and>
   map id' (projr (getProjects
      (exampleRegistryLedger exampleDecoder [addedEvent 20 ''0x05'' 2, addedEvent 30 ''0x05'' 3]
         [] []) ''0xR1'' None None)) = [''0x05'', ''0x05''] \<and>
   \<not> distinct (map id' (projr (getProjects
      (exampleRegistryLedger exampleDecoder [addedEvent 20 ''0x05'' 2, addedEvent 30 ''0x05'' 3]
         [] []) ''0xR1'' None None)))"
  by (simp add: example_registry_defs)

subsection \<open>Flags of locally added recipients\<close>




text \<open>
  Claim C6. For a locally added recipient: if an end block is supplied and the add event
  occurred at or after it, the project is hidden; if the recipient was added before the
  end block and has no removal event, the project is neither hidden nor locked. The code
  misses this at one end block: \<^verbatim>\<open>endBlock && event.blockNumber >= endBlock\<close> takes a
  supplied end block of 0 for none, so with end block 0 a recipient added in block 5, at
  or after it, is returned not hidden.
\<close>

theorem getProjects_end_block_zero:
  "\<not> isl (getProjects (exampleRegistryLedger exampleDecoder
       [addedEvent 5 ''0x05'' 2] [] []) ''0xR1'' None (Some 0)) \<and>
   0 \<le> added_blockNumber (addedEvent 5 ''0x05'' 2) \<and>
   map isHidden (projr (getProjects (exampleRegistryLedger exampleDecoder
       [addedEvent 5 ''0x05'' 2] [] []) ''0xR1'' None (Some 0))) = [False]"
  by (simp add: example_registry_defs)

text \<open>
  For every other end block the flags of the \<open>n\<close>-th locally added project are those the
  claim gives.
\<close>

lemma getProjects_added_flags:
  assumes "getProjects env ra sb eb = Inr ps"
    and "n < length (reg_recipientAddedEvents (registryAt env ra))"
  shows "id' (ps ! n) = added_tcrItemId (reg_recipientAddedEvents (registryAt env ra) ! n) \<and>
         (\<forall>e. eb = Some e \<and> 0 < e \<and>
              e \<le> added_blockNumber (reg_recipientAddedEvents (registryAt env ra) ! n)
              \<longrightarrow> isHidden (ps ! n)) \<and>
         (\<forall>e. eb = Some e \<and>
              added_blockNumber (reg_recipientAddedEvents (registryAt env ra) ! n) < e \<and>
              (\<forall>x \<in> set (reg_recipientRemovedEvents (registryAt env ra)).
                 removed_tcrItemId x \<noteq>
                 added_tcrItemId (reg_recipientAddedEvents (registryAt env ra) ! n))
              \<longrightarrow> \<not> isHidden (ps ! n) \<and> \<not> isLocked (ps ! n))"
proof -
  from getProjects_nth [OF assms(1,2)] obtain cols where
    p: "addedProject env cols (reg_recipientRemovedEvents (registryAt env ra)) sb eb
          (reg_recipientAddedEvents (registryAt env ra) ! n) = Inr (ps ! n)"
    by blast
  have none: "(\<forall>x \<in> set (reg_recipientRemovedEvents (registryAt env ra)).
                 removed_tcrItemId x \<noteq>
                 added_tcrItemId (reg_recipientAddedEvents (registryAt env ra) ! n)) \<Longrightarrow>
     find (\<lambda>x. removed_tcrItemId x =
                  added_tcrItemId (reg_recipientAddedEvents (registryAt env ra) ! n))
           (reg_recipientRemovedEvents (registryAt env ra)) = None"
    by (simp add: find_None_iff)
  show ?thesis
    using addedProject_Inr(1,5,6) [OF p] none by auto
qed

lemma getProjects_added_flags_example:
  "isHidden (projr (getProjects (exampleRegistryLedger exampleDecoder
       [addedEvent 250 ''0x05'' 2, addedEvent 20 ''0x06'' 3] [] []) ''0xR1'' (Some 10) (Some 200)) ! 0) \<and>
   \<not> isHidden (projr (getProjects (exampleRegistryLedger exampleDecoder
       [addedEvent 250 ''0x05'' 2, addedEvent 20 ''0x06'' 3] [] []) ''0xR1'' (Some 10) (Some 200)) ! 1) \<and>
   \<not> isLocked (projr (getProjects (exampleRegistryLedger exampleDecoder
       [addedEvent 250 ''0x05'' 2, addedEvent 20 ''0x06'' 3] [] []) ''0xR1'' (Some 10) (Some 200)) ! 1)"
proof -
  let ?env = "exampleRegistryLedger exampleDecoder
                [addedEvent 250 ''0x05'' 2, addedEvent 20 ''0x06'' 3] [] []"
  have n: "0 < length (reg_recipientAddedEvents (registryAt ?env ''0xR1''))"
      "1 < length (reg_recipientAddedEvents (registryAt ?env ''0xR1''))"
    by (simp_all add: exampleRegistryLedger_def)
  have b: "added_blockNumber (reg_recipientAddedEvents (registryAt ?env ''0xR1'') ! 0) = 250"
      "added_blockNumber (reg_recipientAddedEvents (registryAt ?env ''0xR1'') ! 1) = 20"
      "reg_recipientRemovedEvents (registryAt ?env ''0xR1'') = []"
    by (simp_all add: exampleRegistryLedger_def addedEvent_def)
  have ok: "getProjects ?env ''0xR1'' (Some 10) (Some 200) =
               Inr (projr (getProjects ?env ''0xR1'' (Some 10) (Some 200)))"
    by (simp add: example_registry_defs)
  from getProjects_added_flags [OF ok n(1)] b
  have 1: "isHidden (projr (getProjects ?env ''0xR1'' (Some 10) (Some 200)) ! 0)"
    by simp
  from getProjects_added_flags [OF ok n(2)] b
  have 2: "\<not> isHidden (projr (getProjects ?env ''0xR1'' (Some 10) (Some 200)) ! 1) \<and>
           \<not> isLocked (projr (getProjects ?env ''0xR1'' (Some 10) (Some 200)) ! 1)"
    by simp
  from 1 2 show ?thesis by simp
qed

subsection \<open>Projects known to the curated list only\<close>

text \<open>
  Claim C10. The projects behind the locally added ones in the result of
  \<^verbatim>\<open>getProjects\<close> are those of the item-submitted pass; none of them has the id of a
  recipient-added event. Each of them, and so each project of the result whose id has no
  recipient-added event, is neither hidden nor locked and has index 0, for every window.
  Moreover this part of the result is the same list for every other window.
\<close>

theorem getProjects_submitted_only:
  assumes "getProjects env ra sb eb = Inr ps"
  shows "(\<forall>p \<in> set (drop (length (reg_recipientAddedEvents (registryAt env ra))) ps).
            \<not> isHidden p \<and> \<not> isLocked p \<and> index p = 0 \<and>
            id' p \<notin> set (map added_tcrItemId (reg_recipientAddedEvents (registryAt env ra)))) \<and>
         (\<forall>p \<in> set ps.
            id' p \<notin> set (map added_tcrItemId (reg_recipientAddedEvents (registryAt env ra)))
            \<longrightarrow> \<not> isHidden p \<and> \<not> isLocked p \<and> index p = 0) \<and>
         (\<forall>sb' eb' ps'. getProjects env ra sb' eb' = Inr ps' \<longrightarrow>
            drop (length (reg_recipientAddedEvents (registryAt env ra))) ps' =
            drop (length (reg_recipientAddedEvents (registryAt env ra))) ps)"
proof -
  let ?ids = "map added_tcrItemId (reg_recipientAddedEvents (registryAt env ra))"
  from getProjects_Inr [OF assms] obtain cols qs1 qs2 where
    ps: "ps = qs1 @ qs2"
    and a: "list_all2 (\<lambda>ev q. addedProject env cols
                (reg_recipientRemovedEvents (registryAt env ra)) sb eb ev = Inr q)
             (reg_recipientAddedEvents (registryAt env ra)) qs1"
    and disj: "set (map id' qs2) \<inter> set (map id' qs1) = {}"
    and q2: "\<forall>q \<in> set qs2. index q = 0 \<and> \<not> isHidden q \<and> \<not> isLocked q \<and> extra q \<noteq> None \<and>
              id' q \<in> set (tcr_itemSubmittedEvents (tcrAt env (reg_tcr (registryAt env ra))))"
    by blast
  have ids: "map id' qs1 = ?ids"
    using added_ids [OF a] .
  have len: "length qs1 = length (reg_recipientAddedEvents (registryAt env ra))"
    using a by (simp add: list_all2_lengthD)
  have dr: "drop (length (reg_recipientAddedEvents (registryAt env ra))) ps = qs2"
    using len by (simp add: ps)
  have 1: "\<forall>p \<in> set qs2. \<not> isHidden p \<and> \<not> isLocked p \<and> index p = 0 \<and> id' p \<notin> set ?ids"
    using q2 disj ids by auto
  have 2: "\<forall>p \<in> set ps. id' p \<notin> set ?ids \<longrightarrow> \<not> isHidden p \<and> \<not> isLocked p \<and> index p = 0"
  proof (intro ballI impI)
    fix p assume "p \<in> set ps" "id' p \<notin> set ?ids"
    moreover have "id' p \<in> set ?ids" if "p \<in> set qs1"
      using that imageI [of p "set qs1" id'] by (simp flip: ids)
    ultimately have "p \<in> set qs2"
      by (auto simp: ps)
    with q2 show "\<not> isHidden p \<and> \<not> isLocked p \<and> index p = 0" by simp
  qed
  have 3: "\<forall>sb' eb' ps'. getProjects env ra sb' eb' = Inr ps' \<longrightarrow>
            drop (length (reg_recipientAddedEvents (registryAt env ra))) ps' =
            drop (length (reg_recipientAddedEvents (registryAt env ra))) ps"
    using getProjects_window_independent [OF assms] by blast
  from 1 have behind: "\<forall>p \<in> set (drop (length (reg_recipientAddedEvents (registryAt env ra))) ps).
            \<not> isHidden p \<and> \<not> isLocked p \<and> index p = 0 \<and> id' p \<notin> set ?ids"
    unfolding dr .
  show ?thesis
    by (rule conjI [OF behind conjI [OF 2 3]])
qed

theorem getProjects_submitted_only_witness:
  "map id' (projr (getProjects (exampleRegistryLedger exampleDecoder
       [addedEvent 20 ''0x05'' 2] [removedEvent 40 ''0x05'']
       [''0x09'', ''0x05'', ''0x07'', ''0x09'']) ''0xR1'' (Some 10) (Some 200)))
     = [''0x05'', ''0x09''] \<and>
   \<not> isHidden (projr (getProjects (exampleRegistryLedger exampleDecoder
       [addedEvent 20 ''0x05'' 2] [removedEvent 40 ''0x05'']
       [''0x09'', ''0x05'', ''0x07'', ''0x09'']) ''0xR1'' (Some 10) (Some 200)) ! 1) \<and>
   \<not> isLocked (projr (getProjects (exampleRegistryLedger exampleDecoder
       [addedEvent 20 ''0x05'' 2] [removedEvent 40 ''0x05'']
       [''0x09'', ''0x05'', ''0x07'', ''0x09'']) ''0xR1'' (Some 10) (Some 200)) ! 1) \<and>
   index (projr (getProjects (exampleRegistryLedger exampleDecoder
       [addedEvent 20 ''0x05'' 2] [removedEvent 40 ''0x05'']
       [''0x09'', ''0x05'', ''0x07'', ''0x09'']) ''0xR1'' (Some 10) (Some 200)) ! 1) = 0"
proof -
  let ?env = "exampleRegistryLedger exampleDecoder [addedEvent 20 ''0x05'' 2]
                [removedEvent 40 ''0x05''] [''0x09'', ''0x05'', ''0x07'', ''0x09'']"
  let ?ps = "projr (getProjects ?env ''0xR1'' (Some 10) (Some 200))"
  have ok: "getProjects ?env ''0xR1'' (Some 10) (Some 200) = Inr ?ps"
    by (simp add: example_registry_defs)
  have ids: "map id' ?ps = [''0x05'', ''0x09'']"
    by (simp add: example_registry_defs)
  have mem: "?ps ! 1 \<in> set ?ps"
    using ids by (metis length_map length_Cons list.size(3) nth_mem lessI One_nat_def)
  have new: "id' (?ps ! 1) \<notin>
      set (map added_tcrItemId (reg_recipientAddedEvents (registryAt ?env ''0xR1'')))"
    by (simp add: example_registry_defs)
  from getProjects_submitted_only [OF ok] mem new
  have "\<not> isHidden (?ps ! 1) \<and> \<not> isLocked (?ps ! 1) \<and> index (?ps ! 1) = 0"
    by blast
  with ids show ?thesis by simp
qed

subsection \<open>Single lookup\<close>

text \<open>
  Claim C9, as amended. Let the column schema be loaded, that is, let
  \<^verbatim>\<open>getTcrColumns\<close> return. Then \<^verbatim>\<open>getProject\<close> returns \<^verbatim>\<open>null\<close> exactly when the
  curated list's item data for the id is \<^verbatim>\<open>'0x'\<close>. For other item data it returns a
  record exactly when the decoder returns for the data and the item status and the index
  of the first local added event for the id fit a JavaScript number. A record it returns
  carries the id, is locked exactly when some local removal event has the id, whatever
  the blocks, and is never hidden.
\<close>

theorem getProject_result:
  assumes "getTcrColumns env (tcrAt env (reg_tcr (registryAt env ra))) = Inr cols"
  shows
   "(getProject env ra rid = Inr None \<longleftrightarrow>
       fst (tcr_getItemInfo (tcrAt env (reg_tcr (registryAt env ra))) rid) = ''0x'') \<and>
    (fst (tcr_getItemInfo (tcrAt env (reg_tcr (registryAt env ra))) rid) \<noteq> ''0x'' \<longrightarrow>
       ((\<exists>p. getProject env ra rid = Inr (Some p)) \<longleftrightarrow>
          \<not> isl (gtcrDecode env cols
                 (fst (tcr_getItemInfo (tcrAt env (reg_tcr (registryAt env ra))) rid))) \<and>
          snd (tcr_getItemInfo (tcrAt env (reg_tcr (registryAt env ra))) rid)
            \<le> MAX_SAFE_INTEGER \<and>
          (\<forall>ev. find (\<lambda>ev. added_tcrItemId ev = rid)
                  (reg_recipientAddedEvents (registryAt env ra)) = Some ev \<longrightarrow>
                added_index ev \<le> MAX_SAFE_INTEGER))) \<and>
    (\<forall>p. getProject env ra rid = Inr (Some p) \<longrightarrow>
        id' p = rid \<and>
        (isLocked p \<longleftrightarrow>
           (\<exists>x \<in> set (reg_recipientRemovedEvents (registryAt env ra)).
              removed_tcrItemId x = rid)) \<and>
        \<not> isHidden p)"
proof -
  let ?info = "tcr_getItemInfo (tcrAt env (reg_tcr (registryAt env ra))) rid"
  have 1: "getProject env ra rid = Inr None \<longleftrightarrow> fst ?info = ''0x''"
    using assms by (simp add: getProject_null)
  have 2: "fst ?info \<noteq> ''0x'' \<longrightarrow>
       ((\<exists>p. getProject env ra rid = Inr (Some p)) \<longleftrightarrow>
          \<not> isl (gtcrDecode env cols (fst ?info)) \<and> snd ?info \<le> MAX_SAFE_INTEGER \<and>
          (\<forall>ev. find (\<lambda>ev. added_tcrItemId ev = rid)
                  (reg_recipientAddedEvents (registryAt env ra)) = Some ev \<longrightarrow>
                added_index ev \<le> MAX_SAFE_INTEGER))"
  proof (intro impI iffI)
    assume "\<exists>p. getProject env ra rid = Inr (Some p)"
    then obtain p where p: "getProject env ra rid = Inr (Some p)" ..
    from getProject_Some(5) [OF p] assms
    have "\<not> isl (gtcrDecode env cols (fst ?info))" by auto
    with getProject_Some(6,7) [OF p]
    show "\<not> isl (gtcrDecode env cols (fst ?info)) \<and> snd ?info \<le> MAX_SAFE_INTEGER \<and>
          (\<forall>ev. find (\<lambda>ev. added_tcrItemId ev = rid)
                  (reg_recipientAddedEvents (registryAt env ra)) = Some ev \<longrightarrow>
                added_index ev \<le> MAX_SAFE_INTEGER)"
      by simp
  next
    assume "fst ?info \<noteq> ''0x''"
      and "\<not> isl (gtcrDecode env cols (fst ?info)) \<and> snd ?info \<le> MAX_SAFE_INTEGER \<and>
          (\<forall>ev. find (\<lambda>ev. added_tcrItemId ev = rid)
                  (reg_recipientAddedEvents (registryAt env ra)) = Some ev \<longrightarrow>
                added_index ev \<le> MAX_SAFE_INTEGER)"
    then show "\<exists>p. getProject env ra rid = Inr (Some p)"
      using getProject_returns [OF assms] by simp
  qed
  have 3: "\<forall>p. getProject env ra rid = Inr (Some p) \<longrightarrow>
        id' p = rid \<and>
        (isLocked p \<longleftrightarrow>
           (\<exists>x \<in> set (reg_recipientRemovedEvents (registryAt env ra)).
              removed_tcrItemId x = rid)) \<and>
        \<not> isHidden p"
    using getProject_Some(2,3,4) by blast
  show ?thesis
    by (rule conjI [OF 1 conjI [OF 2 3]])
qed

theorem getProject_result_witness:
  "getProject (exampleRegistryLedger exampleDecoder [addedEvent 20 ''0x05'' 2]
      [removedEvent 40 ''0x09''] []) ''0xR1'' ''0x05'' = Inr None \<and>
   \<not> isl (getProject (exampleRegistryLedger exampleDecoder [addedEvent 20 ''0x05'' 2]
      [removedEvent 40 ''0x09''] []) ''0xR1'' ''0x09'') \<and>
   isLocked (the (projr (getProject (exampleRegistryLedger exampleDecoder
      [addedEvent 20 ''0x05'' 2] [removedEvent 40 ''0x09''] []) ''0xR1'' ''0x09''))) \<and>
   \<not> isHidden (the (projr (getProject (exampleRegistryLedger exampleDecoder
      [addedEvent 20 ''0x05'' 2] [removedEvent 40 ''0x09''] []) ''0xR1'' ''0x09'')))"
proof -
  let ?env = "exampleRegistryLedger exampleDecoder [addedEvent 20 ''0x05'' 2]
                [removedEvent 40 ''0x09''] []"
  have cols: "getTcrColumns ?env (tcrAt ?env (reg_tcr (registryAt ?env ''0xR1''))) =
                Inr exampleColumns"
    by (simp add: getTcrColumns_def exampleRegistryLedger_def exampleTcr_def)
  have e: "fst (tcr_getItemInfo (tcrAt ?env (reg_tcr (registryAt ?env ''0xR1''))) ''0x05'')
                = ''0x''"
    by (simp add: exampleRegistryLedger_def exampleTcr_def)
  have 1: "getProject ?env ''0xR1'' ''0x05'' = Inr None"
    using conjunct1 [OF getProject_result [OF cols, of "''0x05''"]] e by simp
  have c: "fst (tcr_getItemInfo (tcrAt ?env (reg_tcr (registryAt ?env ''0xR1''))) ''0x09'')
             \<noteq> ''0x'' \<and>
           \<not> isl (gtcrDecode ?env exampleColumns
                 (fst (tcr_getItemInfo (tcrAt ?env (reg_tcr (registryAt ?env ''0xR1''))) ''0x09''))) \<and>
          snd (tcr_getItemInfo (tcrAt ?env (reg_tcr (registryAt ?env ''0xR1''))) ''0x09'')
            \<le> MAX_SAFE_INTEGER \<and>
          (\<forall>ev. find (\<lambda>ev. added_tcrItemId ev = ''0x09'')
                  (reg_recipientAddedEvents (registryAt ?env ''0xR1'')) = Some ev \<longrightarrow>
                added_index ev \<le> MAX_SAFE_INTEGER)"
    by (simp add: exampleRegistryLedger_def exampleTcr_def exampleDecoder_def addedEvent_def
                  MAX_SAFE_INTEGER_def)
  have "\<exists>p. getProject ?env ''0xR1'' ''0x09'' = Inr (Some p)"
    using conjunct1 [OF conjunct2 [OF getProject_result [OF cols, of "''0x09''"]]] c
    by simp
  then obtain p where p: "getProject ?env ''0xR1'' ''0x09'' = Inr (Some p)" ..
  have r: "\<exists>x \<in> set (reg_recipientRemovedEvents (registryAt ?env ''0xR1'')).
             removed_tcrItemId x = ''0x09''"
    by (simp add: exampleRegistryLedger_def removedEvent_def)
  from conjunct2 [OF conjunct2 [OF getProject_result [OF cols, of "''0x09''"]]] p r
  have "isLocked p \<and> \<not> isHidden p" by simp
  with 1 p show ?thesis by simp
qed

text \<open>
  Without a loaded schema the call fails also for empty item data: with a single
  meta-evidence event there is no second-to-last one, and \<^verbatim>\<open>getTcrColumns\<close>, which
  runs first, throws.
\<close>

theorem getProject_result_counterexample:
  "fst (tcr_getItemInfo (tcrAt singleEvidenceLedger
          (reg_tcr (registryAt singleEvidenceLedger ''0xR1''))) ''0x05'') = ''0x'' \<and>
   getProject singleEvidenceLedger ''0xR1'' ''0x05'' = Inl TypeError \<and>
   getProject singleEvidenceLedger ''0xR1'' ''0x05'' \<noteq> Inr None"
  by (simp add: singleEvidenceLedger_def example_registry_defs)

subsection \<open>Failures of the metadata decoder\<close>

text \<open>
  Claim C7, as amended. \<^verbatim>\<open>decodeTcrItemData\<close> silences \<^verbatim>\<open>console.error\<close> around the
  decoder and handles no exception. With the column schema loaded: if the decoder throws
  for the metadata of some recipient-added event, \<^verbatim>\<open>getProjects\<close> fails as a whole; if
  \<^verbatim>\<open>getProjects\<close> returns, the address, name, description and image of a locally added
  project are the values the decoder returned at positions 1, 0, 3 and 2, unchanged; and
  \<^verbatim>\<open>getProjects\<close> returns exactly when the decoder returns for every payload the call
  hands to it and the numbers it converts fit a JavaScript number. These payloads are the
  metadata of every recipient-added event and the item data of every submitted item that
  has no recipient-added event and is registered; the numbers are the index of every
  recipient-added event and the status of every submitted item without one.
\<close>

theorem getProjects_decoder:
  assumes "getTcrColumns env (tcrAt env (reg_tcr (registryAt env ra))) = Inr cols"
  shows "(\<forall>ev \<in> set (reg_recipientAddedEvents (registryAt env ra)).
            isl (gtcrDecode env cols (added_metadata ev)) \<longrightarrow> isl (getProjects env ra sb eb)) \<and>
         (\<forall>ps n vs. getProjects env ra sb eb = Inr ps \<and>
            n < length (reg_recipientAddedEvents (registryAt env ra)) \<and>
            gtcrDecode env cols (added_metadata (reg_recipientAddedEvents (registryAt env ra) ! n))
              = Inr vs \<longrightarrow>
            address (ps ! n) = at vs 1 \<and> name (ps ! n) = at vs 0 \<and>
            description (ps ! n) = at vs 3 \<and>
            imageUrl (ps ! n) = ipfsGatewayUrl env @ interpolate (at vs 2)) \<and>
         (\<not> isl (getProjects env ra sb eb) \<longleftrightarrow>
            (\<forall>ev \<in> set (reg_recipientAddedEvents (registryAt env ra)).
               \<not> isl (gtcrDecode env cols (added_metadata ev)) \<and>
               added_index ev \<le> MAX_SAFE_INTEGER) \<and>
            (\<forall>i \<in> set (tcr_itemSubmittedEvents (tcrAt env (reg_tcr (registryAt env ra)))).
               i \<notin> set (map added_tcrItemId (reg_recipientAddedEvents (registryAt env ra))) \<longrightarrow>
               snd (tcr_getItemInfo (tcrAt env (reg_tcr (registryAt env ra))) i)
                 \<le> MAX_SAFE_INTEGER \<and>
               (snd (tcr_getItemInfo (tcrAt env (reg_tcr (registryAt env ra))) i)
                  = statusValue Registered \<longrightarrow>
                \<not> isl (gtcrDecode env cols
                       (fst (tcr_getItemInfo (tcrAt env (reg_tcr (registryAt env ra))) i))))))"
proof -
  let ?added = "reg_recipientAddedEvents (registryAt env ra)"
  let ?removed = "reg_recipientRemovedEvents (registryAt env ra)"
  let ?tcr = "tcrAt env (reg_tcr (registryAt env ra))"
  let ?A = "\<forall>ev \<in> set ?added. \<not> isl (gtcrDecode env cols (added_metadata ev)) \<and>
               added_index ev \<le> MAX_SAFE_INTEGER"
  let ?S = "\<forall>i \<in> set (tcr_itemSubmittedEvents ?tcr).
               i \<notin> set (map added_tcrItemId ?added) \<longrightarrow>
               snd (tcr_getItemInfo ?tcr i) \<le> MAX_SAFE_INTEGER \<and>
               (snd (tcr_getItemInfo ?tcr i) = statusValue Registered \<longrightarrow>
                \<not> isl (gtcrDecode env cols (fst (tcr_getItemInfo ?tcr i))))"
  have 3: "\<not> isl (getProjects env ra sb eb) \<longleftrightarrow> ?A \<and> ?S"
  proof (cases "recipientAddedLoop env cols ?removed sb eb ?added []")
    case (Inl e)
    then have "isl (recipientAddedLoop env cols ?removed sb eb ?added [])" by simp
    then have "\<not> ?A"
      using recipientAddedLoop_returns [of env cols ?removed sb eb ?added "[]"] by blast
    moreover have "isl (getProjects env ra sb eb)"
      using Inl assms by (simp add: getProjects_def Let_def)
    ultimately show ?thesis by blast
  next
    case (Inr qs)
    then have "\<not> isl (recipientAddedLoop env cols ?removed sb eb ?added [])" by simp
    then have a: "?A"
      using recipientAddedLoop_returns [of env cols ?removed sb eb ?added "[]"] by blast
    from recipientAddedLoop_Inr [OF Inr]
    have "list_all2 (\<lambda>ev q. addedProject env cols ?removed sb eb ev = Inr q) ?added qs"
      by simp
    from added_ids [OF this] have ids: "map id' qs = map added_tcrItemId ?added" .
    have "getProjects env ra sb eb =
            itemSubmittedLoop env ?tcr cols (tcr_itemSubmittedEvents ?tcr) qs"
      using Inr assms by (simp add: getProjects_def Let_def)
    then have "\<not> isl (getProjects env ra sb eb) \<longleftrightarrow> ?S"
      using itemSubmittedLoop_returns [of env ?tcr cols "tcr_itemSubmittedEvents ?tcr" qs]
      by (simp only: ids)
    with a show ?thesis by blast
  qed
  have 1: "\<forall>ev \<in> set ?added.
            isl (gtcrDecode env cols (added_metadata ev)) \<longrightarrow> isl (getProjects env ra sb eb)"
    using 3 by blast
  have 2: "\<forall>ps n vs. getProjects env ra sb eb = Inr ps \<and> n < length ?added \<and>
            gtcrDecode env cols (added_metadata (?added ! n)) = Inr vs \<longrightarrow>
            address (ps ! n) = at vs 1 \<and> name (ps ! n) = at vs 0 \<and>
            description (ps ! n) = at vs 3 \<and>
            imageUrl (ps ! n) = ipfsGatewayUrl env @ interpolate (at vs 2)"
  proof (intro allI impI)
    fix ps n vs
    assume h: "getProjects env ra sb eb = Inr ps \<and> n < length ?added \<and>
                gtcrDecode env cols (added_metadata (?added ! n)) = Inr vs"
    then obtain cols' where "getTcrColumns env ?tcr = Inr cols'"
      and "addedProject env cols' ?removed sb eb (?added ! n) = Inr (ps ! n)"
      using getProjects_nth by blast
    with assms have "addedProject env cols ?removed sb eb (?added ! n) = Inr (ps ! n)"
      by simp
    from addedProject_Inr(4) [OF this] h
    show "address (ps ! n) = at vs 1 \<and> name (ps ! n) = at vs 0 \<and>
            description (ps ! n) = at vs 3 \<and>
            imageUrl (ps ! n) = ipfsGatewayUrl env @ interpolate (at vs 2)"
      by auto
  qed
  show ?thesis
    by (rule conjI [OF 1 conjI [OF 2 3]])
qed

theorem getProjects_decoder_witness:
  "isl (getProjects (exampleRegistryLedger failingDecoder [addedEvent 5 ''0x05'' 2] [] [])
          ''0xR1'' None None) \<and>
   \<not> isl (getProjects (exampleRegistryLedger exampleDecoder [addedEvent 5 ''0x05'' 2] []
          [''0x09'']) ''0xR1'' None None) \<and>
   name (projr (getProjects (exampleRegistryLedger exampleDecoder [addedEvent 5 ''0x05'' 2] []
          [''0x09'']) ''0xR1'' None None) ! 0) = Some ''Project''"
proof -
  let ?bad = "exampleRegistryLedger failingDecoder [addedEvent 5 ''0x05'' 2] [] []"
  let ?good = "exampleRegistryLedger exampleDecoder [addedEvent 5 ''0x05'' 2] [] [''0x09'']"
  have cb: "getTcrColumns ?bad (tcrAt ?bad (reg_tcr (registryAt ?bad ''0xR1''))) = Inr exampleColumns"
    by (simp add: getTcrColumns_def exampleRegistryLedger_def exampleTcr_def)
  have cg: "getTcrColumns ?good (tcrAt ?good (reg_tcr (registryAt ?good ''0xR1''))) = Inr exampleColumns"
    by (simp add: getTcrColumns_def exampleRegistryLedger_def exampleTcr_def)
  have fb: "\<forall>ev \<in> set (reg_recipientAddedEvents (registryAt ?bad ''0xR1'')).
              isl (gtcrDecode ?bad exampleColumns (added_metadata ev))"
    by (simp add: exampleRegistryLedger_def failingDecoder_def)
  have nb: "addedEvent 5 ''0x05'' 2 \<in> set (reg_recipientAddedEvents (registryAt ?bad ''0xR1''))"
    by (simp add: exampleRegistryLedger_def)
  have 1: "isl (getProjects ?bad ''0xR1'' None None)"
    using conjunct1 [OF getProjects_decoder [OF cb, of None None]] fb nb by blast
  have tot: "(\<forall>ev \<in> set (reg_recipientAddedEvents (registryAt ?good ''0xR1'')).
               \<not> isl (gtcrDecode ?good exampleColumns (added_metadata ev)) \<and>
               added_index ev \<le> MAX_SAFE_INTEGER) \<and>
            (\<forall>i \<in> set (tcr_itemSubmittedEvents (tcrAt ?good (reg_tcr (registryAt ?good ''0xR1'')))).
               i \<notin> set (map added_tcrItemId (reg_recipientAddedEvents (registryAt ?good ''0xR1''))) \<longrightarrow>
               snd (tcr_getItemInfo (tcrAt ?good (reg_tcr (registryAt ?good ''0xR1''))) i)
                 \<le> MAX_SAFE_INTEGER \<and>
               (snd (tcr_getItemInfo (tcrAt ?good (reg_tcr (registryAt ?good ''0xR1''))) i)
                  = statusValue Registered \<longrightarrow>
                \<not> isl (gtcrDecode ?good exampleColumns
                       (fst (tcr_getItemInfo (tcrAt ?good (reg_tcr (registryAt ?good ''0xR1''))) i)))))"
    by (simp add: exampleRegistryLedger_def exampleDecoder_def exampleTcr_def addedEvent_def
                  MAX_SAFE_INTEGER_def)
  have 2: "\<not> isl (getProjects ?good ''0xR1'' None None)"
    using conjunct2 [OF conjunct2 [OF getProjects_decoder [OF cg, of None None]]] tot
    by (rule iffD2)
  then have ok: "getProjects ?good ''0xR1'' None None =
                   Inr (projr (getProjects ?good ''0xR1'' None None))"
    by (cases "getProjects ?good ''0xR1'' None None") auto
  have dec: "0 < length (reg_recipientAddedEvents (registryAt ?good ''0xR1'')) \<and>
      gtcrDecode ?good exampleColumns
        (added_metadata (reg_recipientAddedEvents (registryAt ?good ''0xR1'') ! 0)) =
      Inr [''Project'', ''0xRecipient'', ''/ipfs/image'', ''About'']"
    by (simp add: exampleRegistryLedger_def exampleDecoder_def)
  have 3: "name (projr (getProjects ?good ''0xR1'' None None) ! 0) =
             at [''Project'', ''0xRecipient'', ''/ipfs/image'', ''About''] 0"
    using conjunct1 [OF conjunct2 [OF getProjects_decoder [OF cg, of None None]]] ok dec
    by blast
  from 1 2 3 show ?thesis by (simp add: at_def)
qed

text \<open>
  With a decoder that throws, one recipient-added event makes the whole call fail with
  the decoder's error.
\<close>

theorem getProjects_decoder_counterexample:
  "getProjects (exampleRegistryLedger failingDecoder [addedEvent 5 ''0x05'' 2] [] [])
     ''0xR1'' None None = Inl DecodeError"
  by (simp add: example_registry_defs)

end
